theory Spec2Isabelle
  imports Main "HOL-Library.AList" "HOL-Library.Multiset"
begin

section \<open>JavaScript values, promises and notifications\<close>

text \<open>
  The runtimes exchange untyped JSON values (\<open>any\<close> in the TypeScript source). A value is
  one of the JavaScript primitives, an array, or an object; an object is the list of its own
  properties in \<open>Object.keys\<close> order, with distinct keys. Numbers are the line numbers,
  ids and counts of the protocol, so they are modelled as integers. Strings are lists of
  \<open>char\<close>; only the ASCII letters have a different upper case.
\<close>

datatype jsval =
    JUndefined
  | JNull
  | JBool bool
  | JNum int
  | JStr string
  | JArr "jsval list"
  | JObj "(string \<times> jsval) list"

datatype js_error = TypeError | RangeError | SyntaxError | ReadError

text \<open>
  A promise is observed at the end of the run: it has resolved with a value, it has been
  rejected, or nothing has settled it (the awaiting caller never continues).
\<close>

datatype 'a promise = Resolved 'a | Rejected js_error | Pending

text \<open>\<open>this.emit(event, ...args)\<close> of the EventEmitter: the event name and its arguments.\<close>

datatype notification = Emit jsval "jsval list"

text \<open>JavaScript truthiness, as used by \<open>if (x)\<close>, \<open>!x\<close> and \<open>a || b\<close>.\<close>

fun truthy :: "jsval \<Rightarrow> bool" where
  "truthy JUndefined = False"
| "truthy JNull = False"
| "truthy (JBool b) = b"
| "truthy (JNum n) = (n \<noteq> 0)"
| "truthy (JStr s) = (s \<noteq> [])"
| "truthy (JArr xs) = True"
| "truthy (JObj kvs) = True"

definition js_or :: "jsval \<Rightarrow> jsval \<Rightarrow> jsval" where
  "js_or a b = (if truthy a then a else b)"

text \<open>
  Property access \<open>data.key\<close> for the property names the source reads (\<open>event\<close>,
  \<open>error\<close>, \<open>frames\<close>, \<open>verified\<close>, \<open>line\<close>, \<open>id\<close>): it throws a TypeError on
  \<open>null\<close> and \<open>undefined\<close>, reads an own property of an object, and is \<open>undefined\<close>
  on every other value. \<open>data?.key\<close> is \<open>undefined\<close> instead of throwing.
\<close>

fun get_prop :: "jsval \<Rightarrow> string \<Rightarrow> js_error + jsval" where
  "get_prop JUndefined k = Inl TypeError"
| "get_prop JNull k = Inl TypeError"
| "get_prop (JObj kvs) k = Inr (case map_of kvs k of None \<Rightarrow> JUndefined | Some v \<Rightarrow> v)"
| "get_prop v k = Inr JUndefined"

fun opt_chain :: "jsval \<Rightarrow> string \<Rightarrow> jsval" where
  "opt_chain JUndefined k = JUndefined"
| "opt_chain JNull k = JUndefined"
| "opt_chain (JObj kvs) k = (case map_of kvs k of None \<Rightarrow> JUndefined | Some v \<Rightarrow> v)"
| "opt_chain v k = JUndefined"

definition js_string_opt :: "string option \<Rightarrow> jsval" where
  "js_string_opt s = (case s of None \<Rightarrow> JUndefined | Some t \<Rightarrow> JStr t)"

section \<open>State shared by the runtimes\<close>

text \<open>
  Every runtime class extends EventEmitter and has the fields \<open>sourcePath\<close> and
  \<open>sourceText\<close>. \<open>emitted\<close> is the sequence of notifications handed to \<open>emit\<close>;
  \<open>sendEvent\<close> defers each with \<open>setImmediate\<close>, which keeps the order of the calls.
  \<open>uncaught\<close> collects the exceptions that no caller receives.
\<close>

record runtime =
  sourcePath :: "string option"
  sourceText :: "string option"
  emitted :: "notification list"
  uncaught :: "js_error list"

definition sendEvent :: "string \<Rightarrow> jsval list \<Rightarrow> 'a runtime_scheme \<Rightarrow> 'a runtime_scheme" where
  "sendEvent event args r = r\<lparr>emitted := emitted r @ [Emit (JStr event) args]\<rparr>"

definition sendEventVal :: "jsval \<Rightarrow> 'a runtime_scheme \<Rightarrow> 'a runtime_scheme" where
  "sendEventVal event r = r\<lparr>emitted := emitted r @ [Emit event []]\<rparr>"

definition throw :: "js_error \<Rightarrow> 'a runtime_scheme \<Rightarrow> 'a runtime_scheme" where
  "throw e r = r\<lparr>uncaught := uncaught r @ [e]\<rparr>"

section \<open>The standalone mock runtime\<close>

text \<open>
  The \<open>RuntimeAdapter\<close> that runs without a backend: it keeps the program text, split into
  lines, and a current line \<open>__mockLine\<close>. The file reader is a parameter; \<open>None\<close> is a
  rejected read.
\<close>

record RuntimeAdapter = runtime +
  sourceLines :: "string list option"
  mockLine :: int

definition new_RuntimeAdapter :: RuntimeAdapter where
  "new_RuntimeAdapter =
     \<lparr>sourcePath = None, sourceText = None, emitted = [], uncaught = [],
      sourceLines = None, mockLine = 0\<rparr>"

text \<open>\<open>text.split(/\r?\n/)\<close>: a line ends at a line feed, with the carriage return before it.\<close>

fun split_lines :: "string \<Rightarrow> string \<Rightarrow> string list" where
  "split_lines cur [] = [cur]"
| "split_lines cur (c # cs) =
     (if c = CHR 0x0A then cur # split_lines [] cs
      else if c = CHR 0x0D \<and> cs \<noteq> [] \<and> hd cs = CHR 0x0A then cur # split_lines [] (tl cs)
      else split_lines (cur @ [c]) cs)"

text \<open>The decimal text of a number, as a template literal prints it.\<close>

function show_nat :: "nat \<Rightarrow> string" where
  "show_nat n =
     (if n < 10 then [''0123456789'' ! n] else show_nat (n div 10) @ [''0123456789'' ! (n mod 10)])"
  by pat_completeness auto
termination
  by (relation "measure id") auto

declare show_nat.simps [simp del]

definition show_int :: "int \<Rightarrow> string" where
  "show_int i = (if i < 0 then CHR ''-'' # show_nat (nat (- i)) else show_nat (nat i))"

definition getLineInformation :: "RuntimeAdapter \<Rightarrow> int" where
  "getLineInformation ra = mockLine ra"

definition printLine :: "RuntimeAdapter \<Rightarrow> RuntimeAdapter" where
  "printLine ra =
     (let line = getLineInformation ra;
          text = (case sourceLines ra of
                    None \<Rightarrow> JNull
                  | Some ls \<Rightarrow> if 0 \<le> line \<and> line < int (length ls)
                               then JStr (ls ! nat line) else JUndefined)
      in sendEvent ''output'' [text, js_string_opt (sourcePath ra), JNum line, JUndefined] ra)"

definition mock_start ::
  "(string \<Rightarrow> string option) \<Rightarrow> string \<Rightarrow> bool \<Rightarrow> RuntimeAdapter \<Rightarrow> jsval promise \<times> RuntimeAdapter" where
  "mock_start readFile path stopAtEntry ra =
     (let ra1 = ra\<lparr>sourcePath := Some path\<rparr> in
      case readFile path of
        None \<Rightarrow> (Pending, throw ReadError ra1)
      | Some text \<Rightarrow>
          (let ra2 = ra1\<lparr>sourceText := Some text, sourceLines := Some (split_lines [] text)\<rparr>;
               ra3 = printLine (sendEvent ''stopOnEntry'' [] ra2)
           in (Resolved (JObj [(''hasError'', JBool False)]), ra3)))"

definition mock_clearBreakpoints :: "RuntimeAdapter \<Rightarrow> unit promise \<times> RuntimeAdapter" where
  "mock_clearBreakpoints ra = (Resolved (), ra)"

definition mock_setBreakPoint :: "int \<Rightarrow> RuntimeAdapter \<Rightarrow> jsval promise \<times> RuntimeAdapter" where
  "mock_setBreakPoint line ra =
     (Resolved (JObj [(''verified'', JBool False), (''line'', JNum line), (''id'', JNum line)]), ra)"

definition lines_length :: "RuntimeAdapter \<Rightarrow> int" where
  "lines_length ra = (case sourceLines ra of None \<Rightarrow> 0 | Some ls \<Rightarrow> int (length ls))"

definition mock_step :: "RuntimeAdapter \<Rightarrow> bool promise \<times> RuntimeAdapter" where
  "mock_step ra =
     (if mockLine ra < lines_length ra - 1
      then (Resolved False, printLine (sendEvent ''stopOnStep'' [] (ra\<lparr>mockLine := mockLine ra + 1\<rparr>)))
      else (Resolved True, sendEvent ''end'' [] ra))"

definition mock_getStackFrames :: "RuntimeAdapter \<Rightarrow> jsval promise \<times> RuntimeAdapter" where
  "mock_getStackFrames ra =
     (Resolved (JObj [(''frames'', JArr [JObj [(''index'', JNum 0),
                                             (''name'', JStr (''Line '' @ show_int (mockLine ra))),
                                             (''file'', JStr (case sourcePath ra of None \<Rightarrow> [] | Some p \<Rightarrow> p)),
                                             (''line'', JNum (mockLine ra))]]),
                      (''count'', JNum 1)]), ra)"

text \<open>
  \<open>continue\<close> is the loop \<open>while (true) { const end = await this.step(); if (end) break; }\<close>
  followed by \<open>resolve()\<close>. The result also counts the calls of \<open>step\<close>.
\<close>

function mock_continue_loop :: "nat \<Rightarrow> RuntimeAdapter \<Rightarrow> (unit promise \<times> nat) \<times> RuntimeAdapter" where
  "mock_continue_loop n ra =
     (case mock_step ra of
        (Resolved end, ra') \<Rightarrow>
          if end then ((Resolved (), Suc n), ra') else mock_continue_loop (Suc n) ra'
      | (Rejected e, ra') \<Rightarrow> ((Pending, Suc n), throw e ra')
      | (Pending, ra') \<Rightarrow> ((Pending, Suc n), ra'))"
  by pat_completeness auto
termination
proof (relation "measure (\<lambda>(n, ra). nat (lines_length ra - 1 - mockLine ra))")
  show "wf (measure (\<lambda>(n, ra). nat (lines_length ra - 1 - mockLine ra)))"
    by simp
next
  fix n :: nat and ra :: RuntimeAdapter and x ra' xa
  assume "(x, ra') = mock_step ra" and "x = Resolved xa" and "\<not> xa"
  then show "((Suc n, ra'), (n, ra)) \<in> measure (\<lambda>(n, ra). nat (lines_length ra - 1 - mockLine ra))"
    by (auto simp: mock_step_def printLine_def sendEvent_def lines_length_def Let_def
             split: if_splits)
qed

declare mock_continue_loop.simps [simp del]

definition mock_continue :: "RuntimeAdapter \<Rightarrow> unit promise \<times> RuntimeAdapter" where
  "mock_continue ra = (fst (fst (mock_continue_loop 0 ra)), snd (mock_continue_loop 0 ra))"

text \<open>A client of the mock runtime calls its public methods in any order.\<close>

datatype mock_call =
    CallStart string bool
  | CallClearBreakpoints
  | CallSetBreakPoint int
  | CallStep
  | CallGetStackFrames
  | CallContinue

fun run_call :: "(string \<Rightarrow> string option) \<Rightarrow> mock_call \<Rightarrow> RuntimeAdapter \<Rightarrow> RuntimeAdapter" where
  "run_call readFile (CallStart path stopAtEntry) ra = snd (mock_start readFile path stopAtEntry ra)"
| "run_call readFile CallClearBreakpoints ra = snd (mock_clearBreakpoints ra)"
| "run_call readFile (CallSetBreakPoint line) ra = snd (mock_setBreakPoint line ra)"
| "run_call readFile CallStep ra = snd (mock_step ra)"
| "run_call readFile CallGetStackFrames ra = snd (mock_getStackFrames ra)"
| "run_call readFile CallContinue ra = snd (mock_continue ra)"

fun run_calls :: "(string \<Rightarrow> string option) \<Rightarrow> mock_call list \<Rightarrow> RuntimeAdapter \<Rightarrow> RuntimeAdapter" where
  "run_calls readFile [] ra = ra"
| "run_calls readFile (c # cs) ra = run_calls readFile cs (run_call readFile c ra)"

fun event_name :: "notification \<Rightarrow> jsval" where
  "event_name (Emit name args) = name"

definition event_names :: "'a runtime_scheme \<Rightarrow> jsval list" where
  "event_names r = map event_name (emitted r)"

text \<open>The notifications the mock runtime hands to \<open>sendEvent\<close>.\<close>

definition mock_vocabulary :: "jsval set" where
  "mock_vocabulary = {JStr ''stopOnEntry'', JStr ''output'', JStr ''stopOnStep'', JStr ''end''}"

text \<open>The number of lines left after the current one.\<close>

definition remaining :: "RuntimeAdapter \<Rightarrow> nat" where
  "remaining ra = nat (lines_length ra - 1 - mockLine ra)"

text \<open>
  In the words of the specification: \<open>step\<close> is invoked repeatedly until it reports the end
  of the program. The result counts the invocations; the fuel bounds them.
\<close>

fun step_until_ended :: "nat \<Rightarrow> RuntimeAdapter \<Rightarrow> (nat \<times> RuntimeAdapter) option" where
  "step_until_ended 0 ra = None"
| "step_until_ended (Suc fuel) ra =
     (case mock_step ra of
        (Resolved ended, ra') \<Rightarrow>
          if ended then Some (1, ra')
          else map_option (\<lambda>(k, r). (Suc k, r)) (step_until_ended fuel ra')
      | (Rejected e, ra') \<Rightarrow> None
      | (Pending, ra') \<Rightarrow> None)"

section \<open>The socket runtime: re-framing of inbound data\<close>

text \<open>
  The \<open>RuntimeAdapter\<close> that talks to the backend over a socket receives the replies in
  \<open>data\<close> events. \<open>getJsonArray\<close> scans one chunk, decoded to a string, for the texts
  between a brace that opens at depth zero and the brace that returns to depth zero.
  All its variables are local to the call.
\<close>

record scan_state =
  list :: "string list"
  bracketValue :: int
  insideJson :: bool
  currentStart :: nat

text \<open>\<open>s.substring(a, b)\<close>: both indices are clamped to the length and swapped when out of order.\<close>

definition substring :: "string \<Rightarrow> nat \<Rightarrow> nat \<Rightarrow> string" where
  "substring s a b =
     (let a' = min a (length s); b' = min b (length s)
      in take (max a' b' - min a' b') (drop (min a' b') s))"

definition bracket_delta :: "char \<Rightarrow> int" where
  "bracket_delta c = (if c = CHR ''{'' then 1 else (if c = CHR ''}'' then - 1 else 0))"

text \<open>The body of the \<open>for\<close> loop at index \<open>i\<close>.\<close>

definition scan_char :: "string \<Rightarrow> scan_state \<Rightarrow> nat \<Rightarrow> scan_state" where
  "scan_char jsons s i =
     (let s1 = s\<lparr>bracketValue := bracketValue s + bracket_delta (jsons ! i)\<rparr>;
          s2 = (if bracketValue s1 > 0 \<and> \<not> insideJson s1
                then s1\<lparr>currentStart := i, insideJson := True\<rparr> else s1);
          s3 = (if bracketValue s2 = 0 \<and> insideJson s2
                then s2\<lparr>list := list s2 @ [substring jsons (currentStart s2) (i + 1)],
                        insideJson := False\<rparr>
                else s2)
      in s3)"

definition scan_init :: scan_state where
  "scan_init = \<lparr>list = [], bracketValue = 0, insideJson = False, currentStart = 0\<rparr>"

definition scan_range :: "string \<Rightarrow> nat \<Rightarrow> nat \<Rightarrow> scan_state \<Rightarrow> scan_state" where
  "scan_range jsons a b s = foldl (scan_char jsons) s [a..<b]"

text \<open>The units the loop has pushed when it ends.\<close>

definition scan_units :: "string \<Rightarrow> string list" where
  "scan_units jsons = list (scan_range jsons 0 (length jsons) scan_init)"

fun join :: "string \<Rightarrow> string list \<Rightarrow> string" where
  "join sep [] = []"
| "join sep [x] = x"
| "join sep (x # y # ys) = x @ sep @ join sep (y # ys)"

definition getJsonArray :: "string \<Rightarrow> string option" where
  "getJsonArray jsons =
     (let l = scan_units jsons
      in if length l > 0 then Some (''['' @ join '','' l @ '']'') else None)"

text \<open>
  The \<open>data\<close> listener installed by \<open>startClient\<close> calls \<open>getJsonArray\<close> on each chunk.
  When the result is defined it parses the array text with \<open>JSON.parse\<close>, takes the empty
  array in place of a falsy result, and hands every element to \<open>dataSubject\<close> in a
  \<open>for ... of\<close> loop. \<open>JSON.parse\<close> is the built-in parser and a parameter here; \<open>None\<close>
  is the SyntaxError it throws on a text that is not JSON. The loop iterates over the elements
  of an array and over the characters of a string, and throws on any other truthy value.
\<close>

definition for_of :: "jsval \<Rightarrow> js_error + jsval list" where
  "for_of v =
     (case v of
        JArr xs \<Rightarrow> Inr xs
      | JStr s \<Rightarrow> Inr (map (\<lambda>ch. JStr [ch]) s)
      | _ \<Rightarrow> Inl TypeError)"

definition on_data :: "(string \<Rightarrow> jsval option) \<Rightarrow> string \<Rightarrow> js_error + jsval list" where
  "on_data JSON_parse chunk =
     (case getJsonArray chunk of
        None \<Rightarrow> Inr []
      | Some array \<Rightarrow>
          (case JSON_parse array of
             None \<Rightarrow> Inl SyntaxError
           | Some v \<Rightarrow> for_of (js_or v (JArr []))))"

text \<open>
  The objects delivered to \<open>dataSubject\<close> for a sequence of chunks. Nothing catches an
  exception of the listener: the objects delivered before it stay delivered, and the model
  stops there with the exception.
\<close>

fun socket_receive :: "(string \<Rightarrow> jsval option) \<Rightarrow> string list \<Rightarrow> jsval list \<times> js_error option" where
  "socket_receive JSON_parse [] = ([], None)"
| "socket_receive JSON_parse (chunk # chunks) =
     (case on_data JSON_parse chunk of
        Inl e \<Rightarrow> ([], Some e)
      | Inr objects \<Rightarrow>
          (objects @ fst (socket_receive JSON_parse chunks), snd (socket_receive JSON_parse chunks)))"

text \<open>
  The shape of well-framed input. The depth of a text is the number of its opening braces
  minus the number of its closing braces. A text is open when every non-empty prefix of it has
  positive depth; a complete message starts with an opening brace, is open up to its last
  character and has depth zero. Filler between messages has no brace.
\<close>

definition depth :: "string \<Rightarrow> int" where
  "depth s = sum_list (map bracket_delta s)"

definition open_text :: "string \<Rightarrow> bool" where
  "open_text p = list_all (\<lambda>k. 0 < depth (take k p)) [1..<Suc (length p)]"

definition complete_message :: "string \<Rightarrow> bool" where
  "complete_message m = (m \<noteq> [] \<and> hd m = CHR ''{'' \<and> depth m = 0 \<and> open_text (butlast m))"

definition brace_free :: "string \<Rightarrow> bool" where
  "brace_free f = list_all (\<lambda>c. bracket_delta c = 0) f"

text \<open>A chunk made of fillers and messages in turn, with a last filler and an open rest.\<close>

definition body_of :: "(string \<times> string) list \<Rightarrow> string" where
  "body_of fms = concat (map (\<lambda>(f, m). f @ m) fms)"

definition chunk_of :: "(string \<times> string) list \<Rightarrow> string \<Rightarrow> string \<Rightarrow> string" where
  "chunk_of fms filler rest = body_of fms @ filler @ rest"

definition well_framed :: "(string \<times> string) list \<Rightarrow> bool" where
  "well_framed fms = list_all (\<lambda>(f, m). brace_free f \<and> complete_message m) fms"

section \<open>The HTTP runtime client\<close>

text \<open>
  \<open>RuntimeClient\<close> sends every command as one HTTP request to the backend and resolves the
  caller's promise from the subscriber of the request. The backend is not part of the
  client: a network is a function that answers a request in the backend's current state.
  The answer is a parsed JSON reply, or a failure of \<open>fetch\<close> (connection refused, any
  other request exception) or of \<open>response.json()\<close> (a reply that does not parse).
\<close>

datatype transport_outcome =
    Reply jsval
  | ConnectionRefused
  | RequestException
  | MalformedReply

record http_request =
  req_method :: string
  req_url :: string
  req_body :: "jsval option"

type_synonym 'b network = "http_request \<Rightarrow> 'b \<Rightarrow> transport_outcome \<times> 'b"

record 'b RuntimeClient = runtime +
  backend :: 'b
  issued :: "http_request list"

definition new_RuntimeClient :: "'b \<Rightarrow> 'b RuntimeClient" where
  "new_RuntimeClient b =
     \<lparr>sourcePath = None, sourceText = None, emitted = [], uncaught = [], backend = b, issued = []\<rparr>"

subsection \<open>Key formatting\<close>

text \<open>\<open>c.toUpperCase()\<close> for one character: the ASCII letters have an upper case of their own.\<close>

definition toUpperCase :: "char \<Rightarrow> char" where
  "toUpperCase c =
     (case map_of (zip ''abcdefghijklmnopqrstuvwxyz'' ''ABCDEFGHIJKLMNOPQRSTUVWXYZ'') c of
        None \<Rightarrow> c
      | Some u \<Rightarrow> u)"

text \<open>
  \<open>formatKeysAPI(value)\<close> of the client: a loop over \<open>Object.keys(value)\<close> that stores
  \<open>value[key]\<close> under the key with its first character in upper case. \<open>key[0]\<close> of the
  empty key is \<open>undefined\<close>, and calling \<open>toUpperCase\<close> on it throws. Assigning to an
  existing property keeps its position; a new property goes to the end.
\<close>

text \<open>A key with its first letter in upper case.\<close>

fun capitalize :: "string \<Rightarrow> string" where
  "capitalize [] = []"
| "capitalize (c # cs) = toUpperCase c # cs"

definition own_prop :: "(string \<times> jsval) list \<Rightarrow> string \<Rightarrow> jsval" where
  "own_prop kvs k = (case map_of kvs k of None \<Rightarrow> JUndefined | Some v \<Rightarrow> v)"

fun formatKeys_loop ::
  "(string \<times> jsval) list \<Rightarrow> string list \<Rightarrow> (string \<times> jsval) list \<Rightarrow> js_error + (string \<times> jsval) list" where
  "formatKeys_loop val [] result = Inr result"
| "formatKeys_loop val (key # keys) result =
     (case key of
        [] \<Rightarrow> Inl TypeError
      | c # cs \<Rightarrow> formatKeys_loop val keys (AList.update (toUpperCase c # cs) (own_prop val key) result))"

definition formatKeysAPI :: "(string \<times> jsval) list \<Rightarrow> js_error + (string \<times> jsval) list" where
  "formatKeysAPI val = formatKeys_loop val (map fst val) []"

subsection \<open>Requests\<close>

text \<open>
  \<open>request\<close> builds the observable and the caller subscribes to it at once, so the
  subscriber is an argument. The subscriber returns what it did to the caller's promise.
  When the subscriber throws, the exception is reported to the host and the promise is left
  as it was. \<open>handleError\<close> hands \<open>null\<close> to the subscriber, completes, and then sends
  \<open>end\<close>.
\<close>

definition handleError ::
  "(jsval \<Rightarrow> 'b RuntimeClient \<Rightarrow> 'r promise \<times> 'b RuntimeClient) \<Rightarrow> 'b RuntimeClient
     \<Rightarrow> 'r promise \<times> 'b RuntimeClient" where
  "handleError subscriber c =
     (let (p, c1) = subscriber JNull c in (p, sendEvent ''end'' [] c1))"

definition request ::
  "'b network \<Rightarrow> string \<Rightarrow> string \<Rightarrow> string \<Rightarrow> (string \<times> jsval) list option
     \<Rightarrow> (jsval \<Rightarrow> 'b RuntimeClient \<Rightarrow> 'r promise \<times> 'b RuntimeClient)
     \<Rightarrow> 'b RuntimeClient \<Rightarrow> 'r promise \<times> 'b RuntimeClient" where
  "request net method controller endpoint body subscriber c =
     (let url = ''http://localhost:5000/'' @ controller @ ''/'' @ endpoint;
          payload = (case body of
                       None \<Rightarrow> Inr None
                     | Some b \<Rightarrow> (case formatKeysAPI b of Inl e \<Rightarrow> Inl e | Inr r \<Rightarrow> Inr (Some (JObj r))))
      in case payload of
           Inl e \<Rightarrow> (Pending, throw e c)
         | Inr pl \<Rightarrow>
             (let req = \<lparr>req_method = method, req_url = url, req_body = pl\<rparr>;
                  (out, b') = net req (backend c);
                  c1 = c\<lparr>backend := b', issued := issued c @ [req]\<rparr>
              in case out of
                   Reply v \<Rightarrow> subscriber v c1
                 | ConnectionRefused \<Rightarrow> handleError subscriber c1
                 | RequestException \<Rightarrow> handleError subscriber c1
                 | MalformedReply \<Rightarrow> handleError subscriber c1))"

subsection \<open>Commands\<close>

text \<open>
  \<open>start\<close> joins the two requests \<open>Load\<close> and \<open>Start\<close> with \<open>forkJoin\<close>: both are
  issued, \<open>Load\<close> first, and the subscriber runs on the pair of their values once both have
  completed. The model handles the outcome of \<open>Start\<close> before it finishes \<open>Load\<close>.
\<close>

definition client_start ::
  "(string \<Rightarrow> string option) \<Rightarrow> 'b network \<Rightarrow> string \<Rightarrow> bool \<Rightarrow> 'b RuntimeClient
     \<Rightarrow> jsval promise \<times> 'b RuntimeClient" where
  "client_start readFile net path stopOnEntry c =
     (let c1 = c\<lparr>sourcePath := Some path\<rparr> in
      case readFile path of
        None \<Rightarrow> (Pending, throw ReadError c1)
      | Some text \<Rightarrow>
          request net ''POST'' ''Debug'' ''Load'' (Some [(''file'', JStr text)])
            (\<lambda>d0. request net ''POST'' ''Debug'' ''Start'' (Some [(''stopOnEntry'', JBool stopOnEntry)])
               (\<lambda>d1 c'.
                  (let error = js_or (opt_chain d0 ''error'') (opt_chain d1 ''error'');
                       event = js_or (opt_chain d1 ''event'') (JStr [])
                   in (Resolved (JObj [(''error'', error), (''event'', event)]),
                       if \<not> truthy error \<and> truthy event then sendEventVal event c' else c'))))
            (c1\<lparr>sourceText := Some text\<rparr>))"

definition client_getBreakpoints :: "'b network \<Rightarrow> 'b RuntimeClient \<Rightarrow> jsval promise \<times> 'b RuntimeClient" where
  "client_getBreakpoints net c =
     request net ''GET'' ''Breakpoint'' ''Get'' None (\<lambda>data c'. (Resolved data, c')) c"

definition client_setBreakPoint ::
  "'b network \<Rightarrow> int \<Rightarrow> 'b RuntimeClient \<Rightarrow> jsval promise \<times> 'b RuntimeClient" where
  "client_setBreakPoint net line c =
     request net ''POST'' ''Breakpoint'' ''Set'' (Some [(''line'', JNum line)])
       (\<lambda>data c'. (Resolved data, c')) c"

definition client_clearBreakpoints :: "'b network \<Rightarrow> 'b RuntimeClient \<Rightarrow> jsval promise \<times> 'b RuntimeClient" where
  "client_clearBreakpoints net c =
     request net ''PATCH'' ''Breakpoint'' ''Clear'' None (\<lambda>data c'. (Resolved JUndefined, c')) c"

definition client_step :: "'b network \<Rightarrow> 'b RuntimeClient \<Rightarrow> jsval promise \<times> 'b RuntimeClient" where
  "client_step net c =
     request net ''PATCH'' ''Debug'' ''Step'' None
       (\<lambda>data c'.
          case get_prop data ''event'' of
            Inl e \<Rightarrow> (Pending, throw e c')
          | Inr ev \<Rightarrow> (Resolved data, if truthy ev then sendEventVal (opt_chain data ''event'') c' else c'))
       c"

text \<open>
  The own enumerable properties an object spread \<open>{...v}\<close> copies: those of an object, the
  indexed elements of an array or a string, none of any other value.
\<close>

definition spread :: "jsval \<Rightarrow> (string \<times> jsval) list" where
  "spread v =
     (case v of
        JObj kvs \<Rightarrow> kvs
      | JArr xs \<Rightarrow> zip (map show_nat [0..<length xs]) xs
      | JStr s \<Rightarrow> zip (map show_nat [0..<length s]) (map (\<lambda>ch. JStr [ch]) s)
      | _ \<Rightarrow> [])"

definition client_getStackFrames :: "'b network \<Rightarrow> 'b RuntimeClient \<Rightarrow> jsval promise \<times> 'b RuntimeClient" where
  "client_getStackFrames net c =
     request net ''GET'' ''Stackframe'' ''Get'' None
       (\<lambda>data c'.
          case get_prop data ''frames'' of
            Inl e \<Rightarrow> (Pending, throw e c')
          | Inr fr \<Rightarrow>
              (case js_or fr (JArr []) of
                 JArr items \<Rightarrow>
                   (let file = JStr (case sourcePath c' of None \<Rightarrow> [] | Some p \<Rightarrow> p);
                        frames = map (\<lambda>item. JObj (AList.update ''file'' file (spread item))) items
                    in (Resolved (JObj (AList.update ''frames'' (JArr frames) (spread data))), c'))
               | _ \<Rightarrow> (Pending, throw TypeError c')))
       c"

text \<open>The executor of the promise that \<open>continue\<close> returns has no statement.\<close>

definition client_continue :: "'b network \<Rightarrow> 'b RuntimeClient \<Rightarrow> jsval promise \<times> 'b RuntimeClient" where
  "client_continue net c = (Pending, c)"

definition client_getVariables :: "'b network \<Rightarrow> 'b RuntimeClient \<Rightarrow> jsval promise \<times> 'b RuntimeClient" where
  "client_getVariables net c =
     request net ''GET'' ''Variable'' ''Get'' None (\<lambda>data c'. (Resolved data, c')) c"

section \<open>The first HTTP runtime adapter\<close>

text \<open>
  The \<open>RuntimeAdapter\<close> of \<open>mockRuntime.ts\<close> is the earlier HTTP client. Only \<open>start\<close>
  sends a request. Its \<open>formatKeysAPI(key, value)\<close> is passed to \<open>JSON.stringify\<close> as the
  replacer, so it is called with a property's key and value and returns the value to
  serialize in its place.
\<close>

definition adapter_formatKeysAPI :: "string \<Rightarrow> jsval \<Rightarrow> jsval" where
  "adapter_formatKeysAPI key v =
     (case key of [] \<Rightarrow> JObj [] | c # cs \<Rightarrow> JObj [(toUpperCase c # cs, v)])"

text \<open>
  \<open>JSON.stringify(value, replacer)\<close>, up to the value whose text is produced. The value is
  first wrapped as the property with the empty key. Serializing a property calls the replacer
  on its key and value and serializes the result: the members of an object and the elements
  of an array are serialized as properties in turn, under their keys and indices. A member
  that comes out \<open>undefined\<close> is left out of an object and is \<open>null\<close> in an array. The
  fuel bounds the nesting; \<open>None\<close> is a serialization that does not end.
\<close>

fun serialize_property :: "nat \<Rightarrow> (string \<Rightarrow> jsval \<Rightarrow> jsval) \<Rightarrow> string \<Rightarrow> jsval \<Rightarrow> jsval option"
  and serialize_members ::
    "nat \<Rightarrow> (string \<Rightarrow> jsval \<Rightarrow> jsval) \<Rightarrow> (string \<times> jsval) list \<Rightarrow> (string \<times> jsval) list option"
  and serialize_elements ::
    "nat \<Rightarrow> (string \<Rightarrow> jsval \<Rightarrow> jsval) \<Rightarrow> nat \<Rightarrow> jsval list \<Rightarrow> jsval list option" where
  "serialize_property 0 replacer key v = None"
| "serialize_property (Suc fuel) replacer key v =
     (case replacer key v of
        JObj kvs \<Rightarrow> map_option JObj (serialize_members fuel replacer kvs)
      | JArr xs \<Rightarrow> map_option JArr (serialize_elements fuel replacer 0 xs)
      | w \<Rightarrow> Some w)"
| "serialize_members fuel replacer [] = Some []"
| "serialize_members fuel replacer ((k, w) # kvs) =
     (case serialize_property fuel replacer k w of
        None \<Rightarrow> None
      | Some w' \<Rightarrow>
          (case serialize_members fuel replacer kvs of
             None \<Rightarrow> None
           | Some ms \<Rightarrow> Some (if w' = JUndefined then ms else (k, w') # ms)))"
| "serialize_elements fuel replacer i [] = Some []"
| "serialize_elements fuel replacer i (w # ws) =
     (case serialize_property fuel replacer (show_nat i) w of
        None \<Rightarrow> None
      | Some w' \<Rightarrow>
          (case serialize_elements fuel replacer (Suc i) ws of
             None \<Rightarrow> None
           | Some es \<Rightarrow> Some ((if w' = JUndefined then JNull else w') # es)))"

definition JSON_stringify :: "nat \<Rightarrow> jsval \<Rightarrow> (string \<Rightarrow> jsval \<Rightarrow> jsval) \<Rightarrow> jsval option" where
  "JSON_stringify fuel v replacer = serialize_property fuel replacer [] v"

text \<open>
  \<open>request\<close> of the adapter: on a reply it hands the value to the subscriber; on a failure
  of \<open>fetch\<close> or of \<open>response.json()\<close> it only sends \<open>end\<close>. A body whose serialization
  does not end never becomes a request.
\<close>

definition adapter_request ::
  "nat \<Rightarrow> 'b network \<Rightarrow> string \<Rightarrow> string \<Rightarrow> string \<Rightarrow> jsval option
     \<Rightarrow> (jsval \<Rightarrow> 'b RuntimeClient \<Rightarrow> 'r promise \<times> 'b RuntimeClient)
     \<Rightarrow> 'b RuntimeClient \<Rightarrow> 'r promise \<times> 'b RuntimeClient" where
  "adapter_request fuel net method controller endpoint body subscriber c =
     (let url = ''http://localhost:5000/'' @ controller @ ''/'' @ endpoint;
          payload = (case body of
                       None \<Rightarrow> Some None
                     | Some b \<Rightarrow> if truthy b then map_option Some (JSON_stringify fuel b adapter_formatKeysAPI)
                                 else Some None)
      in case payload of
           None \<Rightarrow> (Pending, throw RangeError c)
         | Some pl \<Rightarrow>
             (let req = \<lparr>req_method = method, req_url = url, req_body = pl\<rparr>;
                  (out, b') = net req (backend c);
                  c1 = c\<lparr>backend := b', issued := issued c @ [req]\<rparr>
              in case out of
                   Reply v \<Rightarrow> subscriber v c1
                 | ConnectionRefused \<Rightarrow> (Pending, sendEvent ''end'' [] c1)
                 | RequestException \<Rightarrow> (Pending, sendEvent ''end'' [] c1)
                 | MalformedReply \<Rightarrow> (Pending, sendEvent ''end'' [] c1)))"

definition adapter_start ::
  "nat \<Rightarrow> (string \<Rightarrow> string option) \<Rightarrow> 'b network \<Rightarrow> string \<Rightarrow> bool \<Rightarrow> 'b RuntimeClient
     \<Rightarrow> jsval promise \<times> 'b RuntimeClient" where
  "adapter_start fuel readFile net path stopAtEntry c =
     (let c1 = c\<lparr>sourcePath := Some path\<rparr> in
      case readFile path of
        None \<Rightarrow> (Pending, throw ReadError c1)
      | Some text \<Rightarrow>
          adapter_request fuel net ''POST'' ''Debug'' ''Start'' (Some (JObj [(''stopAtEntry'', JBool stopAtEntry)]))
            (\<lambda>data c'.
               (let event = js_or (opt_chain data ''event'') (JStr []);
                    error = opt_chain data ''error''
                in (Resolved data,
                    if \<not> truthy error \<and> truthy event then sendEventVal event c' else c')))
            (c1\<lparr>sourceText := Some text\<rparr>))"

section \<open>The debug session\<close>

text \<open>
  \<open>DebugSession\<close> serves the requests of the client-facing protocol with a
  \<open>RuntimeClient\<close>. The session remembers whether lines and columns start at 1 on the
  debugger side and on the client side. The constructor sets the debugger side to zero-based;
  the client side is what the client announced.
\<close>

record DebugSession =
  debuggerLinesStartAt1 :: bool
  debuggerColumnsStartAt1 :: bool
  clientLinesStartAt1 :: bool
  clientColumnsStartAt1 :: bool

definition new_DebugSession :: "bool \<Rightarrow> bool \<Rightarrow> DebugSession" where
  "new_DebugSession clientLines1 clientColumns1 =
     \<lparr>debuggerLinesStartAt1 = False, debuggerColumnsStartAt1 = False,
      clientLinesStartAt1 = clientLines1, clientColumnsStartAt1 = clientColumns1\<rparr>"

text \<open>
  Modelled from the spec: the coordinate translator. The four conversion functions are
  inherited from the base class of the debug-adapter library, which is not among the
  sources. The specification describes the translator as a pure function layer that converts
  backend-native line and column numbers to client-native numbers and back, with a
  configured base offset of 0 or 1 on either side.
\<close>

definition base_offset :: "bool \<Rightarrow> int" where
  "base_offset startAt1 = (if startAt1 then 1 else 0)"

definition convertDebuggerLineToClient :: "DebugSession \<Rightarrow> int \<Rightarrow> int" where
  \<comment> \<open>Modelled from the spec: the coordinate translator is inherited from the debug-adapter
     base class, which is not among the sources. The spec describes it as a pure function
     layer converting backend-native line numbers to client-native numbers, with a
     configured base offset of 0 or 1 on either side.\<close>
  "convertDebuggerLineToClient s line =
     line - base_offset (debuggerLinesStartAt1 s) + base_offset (clientLinesStartAt1 s)"

definition convertClientLineToDebugger :: "DebugSession \<Rightarrow> int \<Rightarrow> int" where
  \<comment> \<open>Modelled from the spec: the inverse direction of the same translator.\<close>
  "convertClientLineToDebugger s line =
     line - base_offset (clientLinesStartAt1 s) + base_offset (debuggerLinesStartAt1 s)"

definition convertDebuggerColumnToClient :: "DebugSession \<Rightarrow> int \<Rightarrow> int" where
  \<comment> \<open>Modelled from the spec: the same translator for column numbers.\<close>
  "convertDebuggerColumnToClient s column =
     column - base_offset (debuggerColumnsStartAt1 s) + base_offset (clientColumnsStartAt1 s)"

definition convertClientColumnToDebugger :: "DebugSession \<Rightarrow> int \<Rightarrow> int" where
  \<comment> \<open>Modelled from the spec: the inverse direction for column numbers.\<close>
  "convertClientColumnToDebugger s column =
     column - base_offset (clientColumnsStartAt1 s) + base_offset (debuggerColumnsStartAt1 s)"

text \<open>
  The class \<open>Breakpoint\<close> belongs to the same library; it stores its arguments under the
  field names of the protocol. A translator is applied to a value of a reply. The replies
  carry numbers there; for any other value the translated property is left out.
\<close>

definition translated :: "(int \<Rightarrow> int) \<Rightarrow> string \<Rightarrow> jsval \<Rightarrow> (string \<times> jsval) list" where
  "translated conv key v = (case v of JNum n \<Rightarrow> [(key, JNum (conv n))] | _ \<Rightarrow> [])"

text \<open>What the session sends back for a request: a response, an error response, or nothing.\<close>

datatype dap_response =
    Success jsval
  | ErrorResponse int string bool
  | NoResponse

text \<open>\<open>Promise.all\<close>: rejected when a member is rejected, else pending while one is pending.\<close>

fun rejection :: "'a promise list \<Rightarrow> js_error option" where
  "rejection [] = None"
| "rejection (Rejected e # ps) = Some e"
| "rejection (p # ps) = rejection ps"

fun resolutions :: "'a promise list \<Rightarrow> 'a list option" where
  "resolutions [] = Some []"
| "resolutions (Resolved v # ps) = map_option ((#) v) (resolutions ps)"
| "resolutions (p # ps) = None"

definition Promise_all :: "'a promise list \<Rightarrow> 'a list promise" where
  "Promise_all ps =
     (case rejection ps of
        Some e \<Rightarrow> Rejected e
      | None \<Rightarrow> (case resolutions ps of Some vs \<Rightarrow> Resolved vs | None \<Rightarrow> Pending))"

subsection \<open>Breakpoints\<close>

text \<open>
  The asynchronous function mapped over the requested lines: it calls \<open>setBreakPoint\<close> with
  the line translated to the debugger, destructures \<open>verified\<close>, \<open>line\<close> and \<open>id\<close> from
  the result, and builds the breakpoint with the line translated back.
\<close>

definition make_breakpoint :: "DebugSession \<Rightarrow> jsval \<Rightarrow> js_error + jsval" where
  "make_breakpoint s data =
     (if data = JNull \<or> data = JUndefined then Inl TypeError
      else Inr (JObj (AList.update ''id'' (opt_chain data ''id'')
                  ((''verified'', opt_chain data ''verified'')
                   # translated (convertDebuggerLineToClient s) ''line'' (opt_chain data ''line'')))))"

definition trueBreakpoint ::
  "'b network \<Rightarrow> DebugSession \<Rightarrow> int \<Rightarrow> 'b RuntimeClient \<Rightarrow> jsval promise \<times> 'b RuntimeClient" where
  "trueBreakpoint net s l c =
     (case client_setBreakPoint net (convertClientLineToDebugger s l) c of
        (Resolved data, c1) \<Rightarrow>
          (case make_breakpoint s data of
             Inr breakpoint \<Rightarrow> (Resolved breakpoint, c1)
           | Inl e \<Rightarrow> (Rejected e, c1))
      | (Rejected e, c1) \<Rightarrow> (Rejected e, c1)
      | (Pending, c1) \<Rightarrow> (Pending, c1))"

text \<open>
  \<open>clientLines.map(...)\<close> starts the calls in the order of the lines; every call sends its
  request when it starts.
\<close>

fun trueBreakpoints ::
  "'b network \<Rightarrow> DebugSession \<Rightarrow> int list \<Rightarrow> 'b RuntimeClient \<Rightarrow> jsval promise list \<times> 'b RuntimeClient" where
  "trueBreakpoints net s [] c = ([], c)"
| "trueBreakpoints net s (l # ls) c =
     (let (p, c1) = trueBreakpoint net s l c;
          (ps, c2) = trueBreakpoints net s ls c1
      in (p # ps, c2))"

definition setBreakPointsRequest ::
  "'b network \<Rightarrow> DebugSession \<Rightarrow> int list option \<Rightarrow> 'b RuntimeClient \<Rightarrow> dap_response \<times> 'b RuntimeClient" where
  "setBreakPointsRequest net s lines c =
     (let clientLines = (case lines of None \<Rightarrow> [] | Some ls \<Rightarrow> ls) in
      case client_clearBreakpoints net c of
        (Resolved u, c0) \<Rightarrow>
          (let (ps, c1) = trueBreakpoints net s clientLines c0 in
           case Promise_all ps of
             Resolved breakpoints \<Rightarrow> (Success (JObj [(''breakpoints'', JArr breakpoints)]), c1)
           | Rejected e \<Rightarrow> (NoResponse, throw e c1)
           | Pending \<Rightarrow> (NoResponse, c1))
      | (Rejected e, c0) \<Rightarrow> (NoResponse, throw e c0)
      | (Pending, c0) \<Rightarrow> (NoResponse, c0))"

text \<open>
  The session of the standalone mock runtime serves \<open>setBreakpoints\<close> with the same
  statements, calling the mock runtime in place of the client.
\<close>

definition mock_trueBreakpoint ::
  "DebugSession \<Rightarrow> int \<Rightarrow> RuntimeAdapter \<Rightarrow> jsval promise \<times> RuntimeAdapter" where
  "mock_trueBreakpoint s l ra =
     (case mock_setBreakPoint (convertClientLineToDebugger s l) ra of
        (Resolved data, ra1) \<Rightarrow>
          (case make_breakpoint s data of
             Inr breakpoint \<Rightarrow> (Resolved breakpoint, ra1)
           | Inl e \<Rightarrow> (Rejected e, ra1))
      | (Rejected e, ra1) \<Rightarrow> (Rejected e, ra1)
      | (Pending, ra1) \<Rightarrow> (Pending, ra1))"

fun mock_trueBreakpoints ::
  "DebugSession \<Rightarrow> int list \<Rightarrow> RuntimeAdapter \<Rightarrow> jsval promise list \<times> RuntimeAdapter" where
  "mock_trueBreakpoints s [] ra = ([], ra)"
| "mock_trueBreakpoints s (l # ls) ra =
     (let (p, ra1) = mock_trueBreakpoint s l ra;
          (ps, ra2) = mock_trueBreakpoints s ls ra1
      in (p # ps, ra2))"

definition mock_setBreakPointsRequest ::
  "DebugSession \<Rightarrow> int list option \<Rightarrow> RuntimeAdapter \<Rightarrow> dap_response \<times> RuntimeAdapter" where
  "mock_setBreakPointsRequest s lines ra =
     (let clientLines = (case lines of None \<Rightarrow> [] | Some ls \<Rightarrow> ls) in
      case mock_clearBreakpoints ra of
        (Resolved u, ra0) \<Rightarrow>
          (let (ps, ra1) = mock_trueBreakpoints s clientLines ra0 in
           case Promise_all ps of
             Resolved breakpoints \<Rightarrow> (Success (JObj [(''breakpoints'', JArr breakpoints)]), ra1)
           | Rejected e \<Rightarrow> (NoResponse, throw e ra1)
           | Pending \<Rightarrow> (NoResponse, ra1))
      | (Rejected e, ra0) \<Rightarrow> (NoResponse, throw e ra0)
      | (Pending, ra0) \<Rightarrow> (NoResponse, ra0))"

definition breakpointLocationsRequest ::
  "'b network \<Rightarrow> DebugSession \<Rightarrow> 'b RuntimeClient \<Rightarrow> dap_response \<times> 'b RuntimeClient" where
  "breakpointLocationsRequest net s c =
     (case client_getBreakpoints net c of
        (Resolved breakpoints, c1) \<Rightarrow> (Success (JObj (spread breakpoints)), c1)
      | (Rejected e, c1) \<Rightarrow> (NoResponse, throw e c1)
      | (Pending, c1) \<Rightarrow> (NoResponse, c1))"

text \<open>The text a template literal prints for a value.\<close>

fun js_to_string :: "jsval \<Rightarrow> string" where
  "js_to_string JUndefined = ''undefined''"
| "js_to_string JNull = ''null''"
| "js_to_string (JBool b) = (if b then ''true'' else ''false'')"
| "js_to_string (JNum n) = show_int n"
| "js_to_string (JStr s) = s"
| "js_to_string (JArr xs) =
     join '','' (map (\<lambda>x. if x = JUndefined \<or> x = JNull then [] else js_to_string x) xs)"
| "js_to_string (JObj kvs) = ''[object Object]''"

subsection \<open>Launch\<close>

text \<open>
  \<open>sendErrorResponse\<close> is a method of the base class \<open>LoggingDebugSession\<close> of the debug
  adapter library, which is not among the sources. It sets the message of the response to
  \<open>formatPII(msg.format, true, msg.variables)\<close>, stores the message object as the error of
  the body and sends the response. \<open>formatPII\<close> replaces every match of the pattern
  \<open>/{([^}]+)}/g\<close> in the format, from left to right: a placeholder whose name does not
  start with an underscore is kept as it is, and for a name that starts with an underscore
  the variable of that name is looked up. \<open>launchRequest\<close> passes no variables, so the
  lookup reads a property of \<open>undefined\<close> and throws a TypeError.
\<close>

function formatPII :: "string \<Rightarrow> js_error + string" where
  "formatPII [] = Inr []"
| "formatPII (c # cs) =
     (let paramName = takeWhile (\<lambda>x. x \<noteq> CHR ''}'') cs;
          rest = dropWhile (\<lambda>x. x \<noteq> CHR ''}'') cs
      in if c = CHR ''{'' \<and> paramName \<noteq> [] \<and> rest \<noteq> []
         then (if hd paramName = CHR ''_'' then Inl TypeError
               else map_sum id (\<lambda>r. c # paramName @ CHR ''}'' # r) (formatPII (tl rest)))
         else map_sum id (\<lambda>r. c # r) (formatPII cs))"
  by pat_completeness auto
termination
proof (relation "measure length")
  fix c :: char and cs x xa
  assume "xa = dropWhile (\<lambda>x. x \<noteq> CHR ''}'') cs"
  then have "length (tl xa) \<le> length cs"
    using length_dropWhile_le[of "\<lambda>x. x \<noteq> CHR ''}''" cs] by simp
  then show "(tl xa, c # cs) \<in> measure length" by simp
qed simp_all

definition sendErrorResponse :: "int \<Rightarrow> string \<Rightarrow> bool \<Rightarrow> js_error + dap_response" where
  "sendErrorResponse ident format showUser =
     (case formatPII format of
        Inl e \<Rightarrow> Inl e
      | Inr message \<Rightarrow> Inr (ErrorResponse ident message showUser))"

text \<open>
  \<open>launchRequest\<close> waits for the end of the configuration (at most one second), starts the
  program in the runtime and answers from the \<open>error\<close> of the result: the text of the error
  is made the format of the error response. The wait has no effect on the answer and is not
  modelled. An exception leaves the request without a response.
\<close>

definition launchRequest ::
  "(string \<Rightarrow> string option) \<Rightarrow> 'b network \<Rightarrow> string \<Rightarrow> bool \<Rightarrow> 'b RuntimeClient
     \<Rightarrow> dap_response \<times> 'b RuntimeClient" where
  "launchRequest readFile net program stopOnEntry c =
     (case client_start readFile net program stopOnEntry c of
        (Resolved startResponse, c1) \<Rightarrow>
          (case get_prop startResponse ''error'' of
             Inl e \<Rightarrow> (NoResponse, throw e c1)
           | Inr error \<Rightarrow>
               if truthy error
               then (case sendErrorResponse 1001 (''Runtime: '' @ js_to_string error) True of
                       Inl e \<Rightarrow> (NoResponse, throw e c1)
                     | Inr response \<Rightarrow> (response, c1))
               else (Success JUndefined, c1))
      | (Rejected e, c1) \<Rightarrow> (NoResponse, throw e c1)
      | (Pending, c1) \<Rightarrow> (NoResponse, c1))"

subsection \<open>Stepping\<close>

definition continueRequest :: "'b network \<Rightarrow> 'b RuntimeClient \<Rightarrow> dap_response \<times> 'b RuntimeClient" where
  "continueRequest net c =
     (case client_continue net c of
        (Resolved u, c1) \<Rightarrow> (Success JUndefined, c1)
      | (Rejected e, c1) \<Rightarrow> (NoResponse, throw e c1)
      | (Pending, c1) \<Rightarrow> (NoResponse, c1))"

definition nextRequest :: "'b network \<Rightarrow> 'b RuntimeClient \<Rightarrow> dap_response \<times> 'b RuntimeClient" where
  "nextRequest net c =
     (case client_step net c of
        (Resolved u, c1) \<Rightarrow> (Success JUndefined, c1)
      | (Rejected e, c1) \<Rightarrow> (NoResponse, throw e c1)
      | (Pending, c1) \<Rightarrow> (NoResponse, c1))"

section \<open>The execution backend\<close>

text \<open>The requests of the breakpoint commands, as the client sends them.\<close>

definition clear_request :: http_request where
  "clear_request =
     \<lparr>req_method = ''PATCH'', req_url = ''http://localhost:5000/Breakpoint/Clear'', req_body = None\<rparr>"

definition set_request :: "int \<Rightarrow> http_request" where
  "set_request n =
     \<lparr>req_method = ''POST'', req_url = ''http://localhost:5000/Breakpoint/Set'',
      req_body = Some (JObj [(''Line'', JNum n)])\<rparr>"

definition get_request :: http_request where
  "get_request =
     \<lparr>req_method = ''GET'', req_url = ''http://localhost:5000/Breakpoint/Get'', req_body = None\<rparr>"

definition step_request :: http_request where
  "step_request =
     \<lparr>req_method = ''PATCH'', req_url = ''http://localhost:5000/Debug/Step'', req_body = None\<rparr>"

definition variables_request :: http_request where
  "variables_request =
     \<lparr>req_method = ''GET'', req_url = ''http://localhost:5000/Variable/Get'', req_body = None\<rparr>"

definition load_request :: "string \<Rightarrow> http_request" where
  "load_request text =
     \<lparr>req_method = ''POST'', req_url = ''http://localhost:5000/Debug/Load'',
      req_body = Some (JObj [(''File'', JStr text)])\<rparr>"

definition start_request :: "bool \<Rightarrow> http_request" where
  "start_request stopOnEntry =
     \<lparr>req_method = ''POST'', req_url = ''http://localhost:5000/Debug/Start'',
      req_body = Some (JObj [(''StopOnEntry'', JBool stopOnEntry)])\<rparr>"

text \<open>The outcomes a network gives to a sequence of requests, and the state it ends in.\<close>

fun outcomes :: "'b network \<Rightarrow> http_request list \<Rightarrow> 'b \<Rightarrow> transport_outcome list" where
  "outcomes net [] b = []"
| "outcomes net (r # rs) b = fst (net r b) # outcomes net rs (snd (net r b))"

fun final_state :: "'b network \<Rightarrow> http_request list \<Rightarrow> 'b \<Rightarrow> 'b" where
  "final_state net [] b = b"
| "final_state net (r # rs) b = final_state net rs (snd (net r b))"

text \<open>A reply of the shape of the interface \<open>RuntimeBreakpoint\<close>.\<close>

definition RuntimeBreakpoint :: "bool \<Rightarrow> int \<Rightarrow> int \<Rightarrow> jsval" where
  "RuntimeBreakpoint verified line ident =
     JObj [(''verified'', JBool verified), (''line'', JNum line), (''id'', JNum ident)]"

text \<open>The value the subscriber of a request receives for an outcome.\<close>

definition value_of :: "transport_outcome \<Rightarrow> jsval" where
  "value_of out = (case out of Reply v \<Rightarrow> v | _ \<Rightarrow> JNull)"

definition failure :: "transport_outcome \<Rightarrow> bool" where
  "failure out = (case out of Reply v \<Rightarrow> False | _ \<Rightarrow> True)"

text \<open>
  The client after a request whose subscriber only settles the promise: the backend has
  moved on, the request is recorded, and a failure has sent \<open>end\<close>.
\<close>

definition received :: "'b network \<Rightarrow> http_request \<Rightarrow> 'b RuntimeClient \<Rightarrow> 'b RuntimeClient" where
  "received net req c =
     (let c1 = c\<lparr>backend := snd (net req (backend c)), issued := issued c @ [req]\<rparr>
      in case fst (net req (backend c)) of Reply v \<Rightarrow> c1 | _ \<Rightarrow> sendEvent ''end'' [] c1)"

text \<open>How the mapped function settles for the outcome of its request.\<close>

definition settle :: "DebugSession \<Rightarrow> transport_outcome \<Rightarrow> jsval promise" where
  "settle s out = (case make_breakpoint s (value_of out) of Inr bp \<Rightarrow> Resolved bp | Inl e \<Rightarrow> Rejected e)"

text \<open>
  Modelled from the spec: the execution backend. It is a separate program and not among the
  sources. The specification gives its breakpoint commands: clearing discards every
  breakpoint, setting a breakpoint registers the line and answers with \<open>verified\<close>,
  \<open>line\<close> and an \<open>id\<close> derived from the line, getting the breakpoints returns the
  registered lines, and there is at most one breakpoint per line. Whether a line can hold a
  breakpoint is the backend's decision, the parameter \<open>placeable\<close>.
\<close>

record backend_state =
  registered :: "int list"

definition spec_backend :: "(int \<Rightarrow> bool) \<Rightarrow> backend_state network" where
  \<comment> \<open>Modelled from the spec: the breakpoint commands of the execution backend. The request
     body has the capitalized key \<open>Line\<close>.\<close>
  "spec_backend placeable req b =
     (if req_url req = ''http://localhost:5000/Breakpoint/Clear''
      then (Reply (JObj []), b\<lparr>registered := []\<rparr>)
      else if req_url req = ''http://localhost:5000/Breakpoint/Set''
      then (case req_body req of
              Some (JObj [(''Line'', JNum n)]) \<Rightarrow>
                (Reply (RuntimeBreakpoint (placeable n) n n),
                 b\<lparr>registered := List.insert n (registered b)\<rparr>)
            | _ \<Rightarrow> (Reply (JObj [(''verified'', JBool False)]), b))
      else if req_url req = ''http://localhost:5000/Breakpoint/Get''
      then (Reply (JArr (map (\<lambda>n. JObj [(''line'', JNum n)]) (registered b))), b)
      else (Reply (JObj []), b))"

section \<open>Sample environments\<close>

text \<open>Concrete file readers and networks on which the theorems below are instantiated.\<close>

definition failing_load :: "unit network" where
  "failing_load req b =
     (if req_url req = ''http://localhost:5000/Debug/Load''
      then (Reply (JObj [(''error'', JStr ''syntax error in line 3'')]), b)
      else (Reply (JObj [(''event'', JStr ''stopOnEntry'')]), b))"

definition stops_on_entry :: "unit network" where
  "stops_on_entry req b = (Reply (JObj [(''event'', JStr ''stopOnEntry'')]), b)"

definition one_file :: "string \<Rightarrow> string option" where
  "one_file path = (if path = ''prog.misc'' then Some ''x := 1'' else None)"

definition failing :: "transport_outcome \<Rightarrow> 'b network" where
  "failing out req b = (out, b)"

definition program_ends :: "unit network" where
  "program_ends req b = (Reply (JObj [(''event'', JStr ''end'')]), b)"

definition stepping :: "unit network" where
  "stepping req b = (Reply (JObj [(''event'', JStr ''stopOnStep'')]), b)"

text \<open>
  A backend with one breakpoint, in its line 4: it answers the request for the breakpoints
  with that line, and every other request with the breakpoint.
\<close>

definition breakpoint_in_line_4 :: "unit network" where
  "breakpoint_in_line_4 req b =
     (if req_url req = ''http://localhost:5000/Breakpoint/Get''
      then (Reply (JArr [JObj [(''line'', JNum 4)]]), b)
      else (Reply (RuntimeBreakpoint True 4 4), b))"

text \<open>A backend that reports a load error whose text holds a brace-enclosed name.\<close>

definition placeholder_error :: "unit network" where
  "placeholder_error req b =
     (if req_url req = ''http://localhost:5000/Debug/Load''
      then (Reply (JObj [(''error'', JStr ''bad {_x}'')]), b)
      else (Reply (JObj [(''event'', JStr ''stopOnEntry'')]), b))"


text \<open>
  \<open>JSON.parse\<close> at one text: the text \<open>t\<close> parses to the value \<open>v\<close>. No other text is
  handed to the parser in the runs below.
\<close>

definition JSON_parse_at :: "string \<Rightarrow> jsval \<Rightarrow> string \<Rightarrow> jsval option" where
  "JSON_parse_at t v x = (if x = t then Some v else None)"
section \<open>Properties of the standalone mock runtime\<close>

lemma event_names_sendEvent:
  "event_names (sendEvent e args r) = event_names r @ [JStr e]"
  by (simp add: event_names_def sendEvent_def)

lemma event_names_throw: "event_names (throw e r) = event_names r"
  by (simp add: event_names_def throw_def)

lemma event_names_printLine:
  "event_names (printLine ra) = event_names ra @ [JStr ''output'']"
  by (simp add: printLine_def Let_def event_names_def sendEvent_def)

lemma event_names_update:
  "event_names (ra\<lparr>mockLine := l\<rparr>) = event_names ra"
  "event_names (r\<lparr>sourcePath := sp\<rparr>) = event_names r"
  "event_names (r\<lparr>sourceText := st\<rparr>) = event_names r"
  "event_names (ra\<lparr>sourceLines := sl\<rparr>) = event_names ra"
  by (simp_all add: event_names_def)

lemma event_names_step:
  "event_names (snd (mock_step ra)) =
     event_names ra @ (if mockLine ra < lines_length ra - 1 then [JStr ''stopOnStep'', JStr ''output''] else [JStr ''end''])"
  by (simp add: mock_step_def event_names_printLine event_names_sendEvent event_names_update)

lemma vocab_step:
  "set (event_names ra) \<subseteq> mock_vocabulary \<Longrightarrow> set (event_names (snd (mock_step ra))) \<subseteq> mock_vocabulary"
  by (simp add: event_names_step mock_vocabulary_def)

lemma vocab_loop:
  "set (event_names ra) \<subseteq> mock_vocabulary \<Longrightarrow>
   set (event_names (snd (mock_continue_loop n ra))) \<subseteq> mock_vocabulary"
proof (induction n ra rule: mock_continue_loop.induct)
  case (1 n ra)
  obtain p ra' where st: "mock_step ra = (p, ra')" by (cases "mock_step ra")
  from vocab_step[OF "1.prems"] st have nv': "set (event_names ra') \<subseteq> mock_vocabulary" by simp
  show ?case
  proof (cases p)
    case (Resolved e)
    show ?thesis
    proof (cases e)
      case True
      with st Resolved nv' show ?thesis by (simp add: mock_continue_loop.simps[of n ra])
    next
      case False
      with "1.IH"[of p ra' e] st Resolved nv' show ?thesis
        by (simp add: mock_continue_loop.simps[of n ra])
    qed
  next
    case (Rejected x)
    with st nv' show ?thesis by (simp add: event_names_throw mock_continue_loop.simps[of n ra])
  next
    case Pending
    with st nv' show ?thesis by (simp add: mock_continue_loop.simps[of n ra])
  qed
qed

lemma vocab_start:
  "set (event_names ra) \<subseteq> mock_vocabulary \<Longrightarrow>
   set (event_names (snd (mock_start readFile path stopAtEntry ra))) \<subseteq> mock_vocabulary"
  by (auto simp: mock_start_def Let_def event_names_throw event_names_printLine event_names_sendEvent
        mock_vocabulary_def event_names_update split: option.splits)

lemma vocab_call:
  "set (event_names ra) \<subseteq> mock_vocabulary \<Longrightarrow>
   set (event_names (run_call readFile c ra)) \<subseteq> mock_vocabulary"
proof (cases c)
  case (CallStart path stop)
  then show "set (event_names ra) \<subseteq> mock_vocabulary \<Longrightarrow> ?thesis" by (simp add: vocab_start)
next
  case CallContinue
  assume "set (event_names ra) \<subseteq> mock_vocabulary"
  from vocab_loop[OF this, of 0] CallContinue show ?thesis
    by (simp add: mock_continue_def)
qed (simp_all add: mock_clearBreakpoints_def mock_setBreakPoint_def vocab_step mock_getStackFrames_def)

lemma vocab_calls:
  "set (event_names ra) \<subseteq> mock_vocabulary \<Longrightarrow>
   set (event_names (run_calls readFile cs ra)) \<subseteq> mock_vocabulary"
  by (induction cs arbitrary: ra) (simp_all add: vocab_call)

subsection \<open>Running the mock runtime to the end\<close>

lemma lines_length_printLine: "lines_length (printLine ra) = lines_length ra"
  and mockLine_printLine: "mockLine (printLine ra) = mockLine ra"
  by (simp_all add: printLine_def lines_length_def sendEvent_def Let_def)

lemma lines_length_sendEvent: "lines_length (sendEvent e args ra) = lines_length ra"
  and mockLine_sendEvent: "mockLine (sendEvent e args ra) = mockLine ra"
  by (simp_all add: lines_length_def sendEvent_def)

lemma lines_length_mockLine: "lines_length (ra\<lparr>mockLine := l\<rparr>) = lines_length ra"
  by (simp add: lines_length_def)

lemma mock_step_more:
  assumes "mockLine ra < lines_length ra - 1"
  shows "fst (mock_step ra) = Resolved False"
    and "remaining (snd (mock_step ra)) = remaining ra - 1"
    and "0 < remaining ra"
proof -
  from assms have st: "mock_step ra
      = (Resolved False, printLine (sendEvent ''stopOnStep'' [] (ra\<lparr>mockLine := mockLine ra + 1\<rparr>)))"
    by (simp add: mock_step_def)
  then show "fst (mock_step ra) = Resolved False" by simp
  have "lines_length (snd (mock_step ra)) = lines_length ra"
    and "mockLine (snd (mock_step ra)) = mockLine ra + 1"
    unfolding st
    by (simp_all add: lines_length_printLine mockLine_printLine lines_length_sendEvent
          mockLine_sendEvent lines_length_mockLine)
  with assms show "remaining (snd (mock_step ra)) = remaining ra - 1" and "0 < remaining ra"
    by (simp_all add: remaining_def)
qed

lemma mock_step_last:
  assumes "\<not> mockLine ra < lines_length ra - 1"
  shows "mock_step ra = (Resolved True, sendEvent ''end'' [] ra)" and "remaining ra = 0"
  using assms by (simp_all add: mock_step_def remaining_def)

lemma mock_continue_loop_steps:
  "remaining ra < fuel \<Longrightarrow>
   \<exists>ra'. step_until_ended fuel ra = Some (Suc (remaining ra), ra')
       \<and> mock_continue_loop n ra = ((Resolved (), n + Suc (remaining ra)), ra')
       \<and> event_names ra' = event_names ra
            @ concat (replicate (remaining ra) [JStr ''stopOnStep'', JStr ''output'']) @ [JStr ''end'']"
proof (induction fuel arbitrary: ra n)
  case 0
  then show ?case by simp
next
  case (Suc fuel)
  show ?case
  proof (cases "mockLine ra < lines_length ra - 1")
    case True
    obtain ra1 where st: "mock_step ra = (Resolved False, ra1)"
      using mock_step_more(1)[OF True] by (cases "mock_step ra") simp
    with mock_step_more(2,3)[OF True] have rem: "remaining ra1 = remaining ra - 1" "0 < remaining ra"
      by simp_all
    with Suc.prems have "remaining ra1 < fuel" by simp
    from Suc.IH[OF this, of "Suc n"] obtain ra' where
      ih: "step_until_ended fuel ra1 = Some (Suc (remaining ra1), ra')"
        "mock_continue_loop (Suc n) ra1 = ((Resolved (), Suc n + Suc (remaining ra1)), ra')"
        "event_names ra' = event_names ra1
            @ concat (replicate (remaining ra1) [JStr ''stopOnStep'', JStr ''output'']) @ [JStr ''end'']"
      by blast
    have ev1: "event_names ra1 = event_names ra @ [JStr ''stopOnStep'', JStr ''output'']"
      using event_names_step[of ra] st True by simp
    have rep: "replicate (remaining ra) [JStr ''stopOnStep'', JStr ''output'']
             = [JStr ''stopOnStep'', JStr ''output''] # replicate (remaining ra1) [JStr ''stopOnStep'', JStr ''output'']"
      using rem by (cases "remaining ra") simp_all
    have "step_until_ended (Suc fuel) ra = Some (Suc (remaining ra), ra')"
      using st ih(1) rem by simp
    moreover have "mock_continue_loop n ra = ((Resolved (), n + Suc (remaining ra)), ra')"
      using st ih(2) rem by (simp add: mock_continue_loop.simps[of n ra])
    moreover have "event_names ra' = event_names ra
            @ concat (replicate (remaining ra) [JStr ''stopOnStep'', JStr ''output'']) @ [JStr ''end'']"
      unfolding ih(3) ev1 rep by simp
    ultimately show ?thesis by blast
  next
    case False
    from mock_step_last[OF False] have st: "mock_step ra = (Resolved True, sendEvent ''end'' [] ra)"
      and rem: "remaining ra = 0" by simp_all
    have "step_until_ended (Suc fuel) ra = Some (Suc (remaining ra), sendEvent ''end'' [] ra)"
      using st rem by simp
    moreover have "mock_continue_loop n ra = ((Resolved (), n + Suc (remaining ra)), sendEvent ''end'' [] ra)"
      using st rem by (simp add: mock_continue_loop.simps[of n ra])
    moreover have "event_names (sendEvent ''end'' [] ra) = event_names ra
            @ concat (replicate (remaining ra) [JStr ''stopOnStep'', JStr ''output'']) @ [JStr ''end'']"
      using rem by (simp add: event_names_sendEvent)
    ultimately show ?thesis by blast
  qed
qed

text \<open>
  In the mock runtime \<open>continue\<close> is the loop over \<open>step\<close>: from every state it resolves,
  after as many calls of \<open>step\<close> as stepping until the end is reported, and in the same
  final state.
\<close>

lemma mock_continue_is_step_loop:
  "\<exists>k ra'. step_until_ended (Suc (remaining ra)) ra = Some (k, ra')
          \<and> mock_continue_loop 0 ra = ((Resolved (), k), ra')
          \<and> mock_continue ra = (Resolved (), ra')
          \<and> k = Suc (remaining ra)"
proof -
  from mock_continue_loop_steps[of ra "Suc (remaining ra)" 0] obtain ra' where
    "step_until_ended (Suc (remaining ra)) ra = Some (Suc (remaining ra), ra')"
    "mock_continue_loop 0 ra = ((Resolved (), 0 + Suc (remaining ra)), ra')"
    by auto
  then show ?thesis by (simp add: mock_continue_def)
qed

lemma split_lines_nonempty: "split_lines cur s \<noteq> []"
  by (induction s arbitrary: cur) simp_all

text \<open>
  A program of N lines, started in a fresh mock runtime and run to its end: after the entry
  stop the runtime sends exactly N - 1 times \<open>stopOnStep\<close> (each with an \<open>output\<close>) and then
  \<open>end\<close>, which is the last notification.
\<close>

lemma mock_run_notifications:
  assumes "readFile path = Some text"
  shows "event_names (snd (mock_continue (snd (mock_start readFile path stopAtEntry new_RuntimeAdapter))))
           = [JStr ''stopOnEntry'', JStr ''output'']
             @ concat (replicate (length (split_lines [] text) - 1) [JStr ''stopOnStep'', JStr ''output''])
             @ [JStr ''end'']"
proof -
  define ra where "ra = snd (mock_start readFile path stopAtEntry new_RuntimeAdapter)"
  have ev: "event_names ra = [JStr ''stopOnEntry'', JStr ''output'']"
    using assms
    by (simp add: ra_def mock_start_def new_RuntimeAdapter_def Let_def printLine_def
          sendEvent_def event_names_def)
  have "lines_length ra = int (length (split_lines [] text))" and "mockLine ra = 0"
    using assms
    by (simp_all add: ra_def mock_start_def new_RuntimeAdapter_def Let_def printLine_def
          sendEvent_def lines_length_def)
  then have rem: "remaining ra = length (split_lines [] text) - 1"
    by (simp add: remaining_def)
  from mock_continue_loop_steps[of ra "Suc (remaining ra)" 0] obtain ra' where
    "mock_continue_loop 0 ra = ((Resolved (), 0 + Suc (remaining ra)), ra')"
    "event_names ra' = event_names ra
       @ concat (replicate (remaining ra) [JStr ''stopOnStep'', JStr ''output'']) @ [JStr ''end'']"
    by auto
  then show ?thesis unfolding ra_def[symmetric] by (simp add: mock_continue_def ev rem)
qed

section \<open>Properties of the re-framing scanner\<close>

lemma scan_range_empty: "b \<le> a \<Longrightarrow> scan_range jsons a b s = s"
  by (simp add: scan_range_def)

lemma scan_range_Suc: "a \<le> b \<Longrightarrow> scan_range jsons a (Suc b) s = scan_char jsons (scan_range jsons a b s) b"
  by (simp add: scan_range_def)

lemma scan_range_split:
  "a \<le> b \<Longrightarrow> b \<le> c \<Longrightarrow> scan_range jsons a c s = scan_range jsons b c (scan_range jsons a b s)"
proof -
  assume ab: "a \<le> b" and bc: "b \<le> c"
  then obtain k where c: "c = b + k" using le_Suc_ex by blast
  from ab have "[a..<b + k] = [a..<b] @ [b..<b + k]" by (rule upt_add_eq_append)
  with c show ?thesis by (simp add: scan_range_def)
qed

lemma scan_char_filler:
  "bracket_delta (jsons ! i) = 0 \<Longrightarrow> bracketValue s = 0 \<Longrightarrow> \<not> insideJson s \<Longrightarrow> scan_char jsons s i = s"
  by (simp add: scan_char_def Let_def)

lemma scan_range_filler:
  assumes "\<And>i. a \<le> i \<Longrightarrow> i < b \<Longrightarrow> bracket_delta (jsons ! i) = 0"
    and "bracketValue s = 0" and "\<not> insideJson s"
  shows "scan_range jsons a b s = s"
  using assms(1)
proof (induction b)
  case 0
  then show ?case by (simp add: scan_range_empty)
next
  case (Suc b)
  show ?case
  proof (cases "a \<le> b")
    case True
    have "scan_range jsons a b s = s" using Suc by simp
    moreover have "bracket_delta (jsons ! b) = 0" using Suc.prems[of b] True by simp
    ultimately show ?thesis using True assms(2,3) by (simp add: scan_range_Suc scan_char_filler)
  next
    case False
    then show ?thesis by (simp add: scan_range_empty)
  qed
qed

lemma brace_free_nth: "brace_free f \<Longrightarrow> i < length f \<Longrightarrow> bracket_delta (f ! i) = 0"
  by (simp add: brace_free_def list_all_length)

lemma scan_filler:
  assumes "brace_free f" and "bracketValue s = 0" and "\<not> insideJson s"
  shows "scan_range (pre @ f @ post) (length pre) (length pre + length f) s = s"
proof (rule scan_range_filler[OF _ assms(2,3)])
  fix i assume "length pre \<le> i" and "i < length pre + length f"
  then have "(pre @ f @ post) ! i = f ! (i - length pre)" and "i - length pre < length f"
    by (auto simp: nth_append)
  with assms(1) show "bracket_delta ((pre @ f @ post) ! i) = 0" by (simp add: brace_free_nth)
qed

lemma depth_append: "depth (xs @ ys) = depth xs + depth ys"
  by (simp add: depth_def)

lemma depth_single: "depth [c] = bracket_delta c"
  by (simp add: depth_def)

lemma open_text_snoc: "open_text (q @ [c]) \<Longrightarrow> open_text q \<and> 0 < depth (q @ [c])"
  by (auto simp: open_text_def list_all_iff)

lemma bracket_delta_pos: "0 < bracket_delta c \<Longrightarrow> bracket_delta c = 1"
  by (simp add: bracket_delta_def split: if_splits)

lemma scan_open:
  assumes "open_text p" and "p \<noteq> []" and "bracketValue s = 0" and "\<not> insideJson s"
  shows "list (scan_range (pre @ p @ post) (length pre) (length pre + length p) s) = list s
       \<and> bracketValue (scan_range (pre @ p @ post) (length pre) (length pre + length p) s) = depth p
       \<and> insideJson (scan_range (pre @ p @ post) (length pre) (length pre + length p) s)
       \<and> currentStart (scan_range (pre @ p @ post) (length pre) (length pre + length p) s) = length pre"
  using assms(1,2)
proof (induction p arbitrary: post rule: rev_induct)
  case Nil
  then show ?case by simp
next
  case (snoc c q)
  from open_text_snoc[OF snoc.prems(1)] have oq: "open_text q" and pos: "0 < depth (q @ [c])" by simp_all
  let ?js = "pre @ (q @ [c]) @ post"
  have js: "?js = pre @ q @ (c # post)" by simp
  have nth: "?js ! (length pre + length q) = c" by (simp add: nth_append)
  have rng: "scan_range ?js (length pre) (length pre + length (q @ [c])) s
           = scan_char ?js (scan_range ?js (length pre) (length pre + length q) s) (length pre + length q)"
    using scan_range_Suc[of "length pre" "length pre + length q" ?js s] by simp
  show ?case
  proof (cases "q = []")
    case True
    with pos have d: "bracket_delta c = 1" by (simp add: depth_single bracket_delta_pos)
    from True rng have "scan_range ?js (length pre) (length pre + length (q @ [c])) s
        = scan_char ?js s (length pre)" by (simp add: scan_range_empty)
    moreover have "?js ! length pre = c" using nth True by simp
    ultimately show ?thesis using d True assms(3,4)
      by (simp add: scan_char_def Let_def depth_single)
  next
    case False
    from snoc.IH[OF oq False, of "c # post"] js
    have ih: "list (scan_range ?js (length pre) (length pre + length q) s) = list s"
      "bracketValue (scan_range ?js (length pre) (length pre + length q) s) = depth q"
      "insideJson (scan_range ?js (length pre) (length pre + length q) s)"
      "currentStart (scan_range ?js (length pre) (length pre + length q) s) = length pre"
      by simp_all
    from pos have "0 < depth q + bracket_delta c" by (simp add: depth_append depth_single)
    with ih nth rng show ?thesis
      by (simp add: scan_char_def Let_def depth_append depth_single)
  qed
qed

lemma complete_message_snoc:
  assumes "complete_message m"
  obtains q c where "m = q @ [c]" and "q \<noteq> []" and "open_text q"
    and "depth q + bracket_delta c = 0"
proof -
  from assms have ne: "m \<noteq> []" and hd: "hd m = CHR ''{''" and d: "depth m = 0"
    and op: "open_text (butlast m)" by (simp_all add: complete_message_def)
  from ne have m: "m = butlast m @ [last m]" by simp
  have "butlast m \<noteq> []"
  proof
    assume "butlast m = []"
    with m have "m = [last m]" by simp
    with hd have "m = [CHR ''{'']" by (metis list.sel(1))
    with d show False by (simp add: depth_def bracket_delta_def)
  qed
  moreover have "depth (butlast m) + bracket_delta (last m) = 0"
    using d m by (metis depth_append depth_single)
  ultimately show ?thesis using op m that by blast
qed

lemma substring_middle: "substring (pre @ m @ post) (length pre) (length pre + length m) = m"
  by (simp add: substring_def Let_def min_def max_def)

lemma scan_message_snoc:
  assumes "open_text q" and "q \<noteq> []" and "depth q + bracket_delta c = 0"
    and "bracketValue s = 0" and "\<not> insideJson s"
  shows "list (scan_range (pre @ (q @ [c]) @ post) (length pre) (length pre + length (q @ [c])) s) = list s @ [q @ [c]]
       \<and> bracketValue (scan_range (pre @ (q @ [c]) @ post) (length pre) (length pre + length (q @ [c])) s) = 0
       \<and> \<not> insideJson (scan_range (pre @ (q @ [c]) @ post) (length pre) (length pre + length (q @ [c])) s)"
proof -
  let ?js = "pre @ (q @ [c]) @ post"
  have js: "?js = pre @ q @ (c # post)" by simp
  from scan_open[OF assms(1,2,4,5), of pre "c # post"] js
  have ih: "list (scan_range ?js (length pre) (length pre + length q) s) = list s"
      "bracketValue (scan_range ?js (length pre) (length pre + length q) s) = depth q"
      "insideJson (scan_range ?js (length pre) (length pre + length q) s)"
      "currentStart (scan_range ?js (length pre) (length pre + length q) s) = length pre"
    by simp_all
  have nth: "?js ! (length pre + length q) = c"
    by (simp add: nth_append)
  have rng: "scan_range ?js (length pre) (length pre + length (q @ [c])) s
           = scan_char ?js (scan_range ?js (length pre) (length pre + length q) s) (length pre + length q)"
    using scan_range_Suc[of "length pre" "length pre + length q" ?js s] by simp
  have sub: "substring ?js (length pre) (Suc (length pre + length q)) = q @ [c]"
    using substring_middle[of pre "q @ [c]" post] by simp
  show ?thesis
    unfolding rng using ih nth assms(3) sub
    by (simp add: scan_char_def Let_def)
qed

lemma scan_message:
  assumes "complete_message m" and "bracketValue s = 0" and "\<not> insideJson s"
  shows "list (scan_range (pre @ m @ post) (length pre) (length pre + length m) s) = list s @ [m]
       \<and> bracketValue (scan_range (pre @ m @ post) (length pre) (length pre + length m) s) = 0
       \<and> \<not> insideJson (scan_range (pre @ m @ post) (length pre) (length pre + length m) s)"
proof -
  from assms(1) obtain q c where m: "m = q @ [c]" and q: "q \<noteq> []" "open_text q"
    "depth q + bracket_delta c = 0" by (rule complete_message_snoc)
  show ?thesis unfolding m by (rule scan_message_snoc[OF q(2) q(1) q(3) assms(2,3)])
qed

lemma body_of_Nil: "body_of [] = []"
  by (simp add: body_of_def)

lemma body_of_Cons: "body_of ((f, m) # fms) = f @ m @ body_of fms"
  by (simp add: body_of_def)

lemma scan_messages:
  assumes "well_framed fms" and "bracketValue s = 0" and "\<not> insideJson s"
  shows "list (scan_range (pre @ body_of fms @ post) (length pre) (length pre + length (body_of fms)) s)
           = list s @ map snd fms
       \<and> bracketValue (scan_range (pre @ body_of fms @ post) (length pre) (length pre + length (body_of fms)) s) = 0
       \<and> \<not> insideJson (scan_range (pre @ body_of fms @ post) (length pre) (length pre + length (body_of fms)) s)"
  using assms
proof (induction fms arbitrary: pre s)
  case Nil
  then show ?case by (simp add: scan_range_empty body_of_Nil)
next
  case (Cons fm fms)
  obtain f m where fm: "fm = (f, m)" by (cases fm)
  from Cons.prems(1) fm have bf: "brace_free f" and cm: "complete_message m" and wf: "well_framed fms"
    by (simp_all add: well_framed_def)
  define js where "js = pre @ body_of (fm # fms) @ post"
  define a where "a = length pre"
  define b where "b = length pre + length f"
  define c where "c = length (pre @ f) + length m"
  define d where "d = length (pre @ f @ m) + length (body_of fms)"
  have js1: "js = pre @ f @ (m @ body_of fms @ post)" by (simp add: js_def fm body_of_Cons)
  have js2: "js = (pre @ f) @ m @ (body_of fms @ post)" by (simp add: js_def fm body_of_Cons)
  have js3: "js = (pre @ f @ m) @ body_of fms @ post" by (simp add: js_def fm body_of_Cons)
  have ord: "a \<le> b" "b \<le> c" "c \<le> d" by (simp_all add: a_def b_def c_def d_def)
  have b': "b = length (pre @ f)" and c': "c = length (pre @ f @ m)" by (simp_all add: b_def c_def)
  have s1: "scan_range js a b s = s"
    unfolding js1 a_def b_def by (rule scan_filler[OF bf Cons.prems(2,3)])
  have s2: "list (scan_range js b c s) = list s @ [m]
       \<and> bracketValue (scan_range js b c s) = 0 \<and> \<not> insideJson (scan_range js b c s)"
    unfolding js2 b' c_def by (rule scan_message[OF cm Cons.prems(2,3)])
  define t where "t = scan_range js b c s"
  from s2 have s2a: "bracketValue t = 0" and s2b: "\<not> insideJson t"
    and s2c: "list t = list s @ [m]" by (simp_all add: t_def)
  have s3: "list (scan_range js c d t) = list t @ map snd fms
       \<and> bracketValue (scan_range js c d t) = 0
       \<and> \<not> insideJson (scan_range js c d t)"
    unfolding js3 c' d_def by (rule Cons.IH[OF wf s2a s2b])
  have "scan_range js a d s = scan_range js c d (scan_range js b c (scan_range js a b s))"
    using scan_range_split[of a b d js s] scan_range_split[of b c d js "scan_range js a b s"] ord
    by simp
  with s1 have eq: "scan_range js a d s = scan_range js c d t" by (simp add: t_def)
  have d': "length pre + length (body_of (fm # fms)) = d"
    by (simp add: d_def fm body_of_Cons)
  have "list (scan_range js a d s) = list s @ map snd (fm # fms)
       \<and> bracketValue (scan_range js a d s) = 0 \<and> \<not> insideJson (scan_range js a d s)"
    unfolding eq using s3 s2c fm by simp
  then show ?case unfolding js_def a_def d' [symmetric] .
qed

lemma scan_units_well_framed:
  assumes "well_framed fms" and "brace_free filler" and "open_text rest"
  shows "scan_units (chunk_of fms filler rest) = map snd fms"
proof -
  let ?body = "body_of fms"
  let ?js = "chunk_of fms filler rest"
  let ?b = "length ?body" and ?c = "length ?body + length filler"
  let ?d = "length ?body + length filler + length rest"
  have js0: "?js = [] @ ?body @ (filler @ rest)" by (simp add: chunk_of_def)
  have js1: "?js = ?body @ filler @ rest" by (simp add: chunk_of_def)
  have js2: "?js = (?body @ filler) @ rest @ []" by (simp add: chunk_of_def)
  have len: "length ?js = ?d" by (simp add: chunk_of_def)
  let ?s1 = "scan_range ?js 0 ?b scan_init"
  from scan_messages[OF assms(1), of scan_init "[]" "filler @ rest"] js0
  have s1: "list ?s1 = map snd fms" "bracketValue ?s1 = 0" "\<not> insideJson ?s1"
    by (simp_all add: scan_init_def)
  have s2: "scan_range ?js ?b ?c ?s1 = ?s1"
    using scan_filler[OF assms(2) s1(2,3), of ?body rest] js1 by simp
  have s3: "list (scan_range ?js ?c ?d ?s1) = map snd fms"
  proof (cases "rest = []")
    case True
    then show ?thesis using s1 by (simp add: scan_range_empty)
  next
    case False
    from scan_open[OF assms(3) False s1(2,3), of "?body @ filler" "[]"] js2 s1(1)
    show ?thesis by simp
  qed
  have "scan_range ?js 0 ?d scan_init = scan_range ?js ?c ?d (scan_range ?js ?b ?c ?s1)"
    using scan_range_split[of 0 ?b ?d ?js scan_init] scan_range_split[of ?b ?c ?d ?js ?s1]
    by simp
  with s2 s3 len show ?thesis by (simp add: scan_units_def)
qed

lemma socket_receive_unframed:
  "list_all (\<lambda>chunk. getJsonArray chunk = None) chunks
   \<Longrightarrow> socket_receive JSON_parse chunks = ([], None)"
  by (induction chunks) (simp_all add: on_data_def)

text \<open>
  C5 (as amended). \<open>getJsonArray\<close> scans one chunk for balanced braces, counting every
  brace character, also one inside a string value. Take a chunk made of zero, one or many
  texts in turn, each starting with an opening brace, ending at the first closing brace that
  balances it, and preceded by filler without braces; let the chunk end with brace-free filler
  and the open beginning of a further text (both may be empty). Then the units found are
  exactly these texts in arrival order: the result is their comma-separated array text, and is
  undefined when there is none. The open beginning at the end of the chunk is dropped. The
  listener hands this array text to \<open>JSON.parse\<close> and delivers the elements of the parsed
  array in order; it delivers nothing and throws when the text is not JSON.
\<close>

theorem getJsonArray_well_framed:
  assumes "well_framed fms" and "brace_free filler" and "open_text rest"
  shows "getJsonArray (chunk_of fms filler rest) =
           (if fms = [] then None else Some (''['' @ join '','' (map snd fms) @ '']''))
       \<and> on_data JSON_parse (chunk_of fms filler rest) =
           (if fms = [] then Inr []
            else case JSON_parse (''['' @ join '','' (map snd fms) @ '']'') of
                   None \<Rightarrow> Inl SyntaxError
                 | Some v \<Rightarrow> for_of (js_or v (JArr [])))"
proof -
  have u: "scan_units (chunk_of fms filler rest) = map snd fms"
    by (rule scan_units_well_framed[OF assms])
  have g: "getJsonArray (chunk_of fms filler rest) =
           (if fms = [] then None else Some (''['' @ join '','' (map snd fms) @ '']''))"
    by (simp add: getJsonArray_def Let_def u)
  show ?thesis unfolding on_data_def g by simp
qed

theorem getJsonArray_well_framed_witness:
  \<open>well_framed [([], ''{"a":1}''), ('' '', ''{"b":{"c":2}}'')] \<and> brace_free '' ''
   \<and> open_text ''{"d":''
   \<and> getJsonArray (chunk_of [([], ''{"a":1}''), ('' '', ''{"b":{"c":2}}'')] '' '' ''{"d":'')
       = Some ''[{"a":1},{"b":{"c":2}}]''
   \<and> on_data (JSON_parse_at ''[{"a":1},{"b":{"c":2}}]''
                (JArr [JObj [(''a'', JNum 1)], JObj [(''b'', JObj [(''c'', JNum 2)])]]))
        (chunk_of [([], ''{"a":1}''), ('' '', ''{"b":{"c":2}}'')] '' '' ''{"d":'')
       = Inr [JObj [(''a'', JNum 1)], JObj [(''b'', JObj [(''c'', JNum 2)])]]\<close>
proof -
  have h1: \<open>well_framed [([], ''{"a":1}''), ('' '', ''{"b":{"c":2}}'')]\<close> by code_simp
  have h2: "brace_free '' ''" by code_simp
  have h3: \<open>open_text ''{"d":''\<close> by code_simp
  from getJsonArray_well_framed[OF h1 h2 h3] h1 h2 h3 show ?thesis
    by (simp add: JSON_parse_at_def for_of_def js_or_def)
qed

text \<open>
  C5 (as stated) fails: the scanner starts every chunk at depth zero with an empty list. The
  message \<open>{"a":1}\<close> delivered in the chunks \<open>{"a":\<close> and \<open>1}\<close> yields nothing for either
  chunk, and a complete message that follows in the second chunk is lost with it, although the
  same bytes in one chunk yield both messages. Within one chunk the scanner counts a brace
  inside a string value like a structural one: of the two messages \<open>{"a":"{"}\<close> and
  \<open>{"b":1}\<close> in one chunk it finds no unit at all.
\<close>

theorem socket_receive_split_message_counterexample:
  \<open>getJsonArray ''{"a":'' = None \<and> getJsonArray ''1}'' = None
   \<and> getJsonArray ''1}{"b":2}'' = None
   \<and> getJsonArray (''{"a":'' @ ''1}{"b":2}'') = Some ''[{"a":1},{"b":2}]''
   \<and> socket_receive (JSON_parse_at ''[{"a":1},{"b":2}]''
                       (JArr [JObj [(''a'', JNum 1)], JObj [(''b'', JNum 2)]]))
        [''{"a":'', ''1}{"b":2}''] = ([], None)
   \<and> socket_receive (JSON_parse_at ''[{"a":1},{"b":2}]''
                       (JArr [JObj [(''a'', JNum 1)], JObj [(''b'', JNum 2)]]))
        [''{"a":'' @ ''1}{"b":2}''] = ([JObj [(''a'', JNum 1)], JObj [(''b'', JNum 2)]], None)
   \<and> getJsonArray ''{"a":"{"}{"b":1}'' = None\<close>
  by code_simp
section \<open>Properties of the key formatting\<close>

lemma toUpperCase_idem: "toUpperCase (toUpperCase c) = toUpperCase c"
  by (simp add: toUpperCase_def)

lemma capitalize_idem: "capitalize (capitalize k) = capitalize k"
  by (cases k) (simp_all add: toUpperCase_idem)

lemma capitalize_Nil: "capitalize k = [] \<longleftrightarrow> k = []"
  by (cases k) simp_all

lemma update_fresh: "k \<notin> fst ` set al \<Longrightarrow> AList.update k v al = al @ [(k, v)]"
  by (induction al) auto

lemma formatKeys_loop_step:
  "k \<noteq> [] \<Longrightarrow> formatKeys_loop val (k # ks) acc
      = formatKeys_loop val ks (AList.update (capitalize k) (own_prop val k) acc)"
  by (cases k) simp_all

lemma formatKeys_loop_fresh:
  assumes "\<And>k v. (k, v) \<in> set suf \<Longrightarrow> own_prop val k = v \<and> k \<noteq> []"
    and "distinct (map (\<lambda>kv. capitalize (fst kv)) suf)"
    and "capitalize ` fst ` set suf \<inter> fst ` set acc = {}"
  shows "formatKeys_loop val (map fst suf) acc = Inr (acc @ map (\<lambda>(k, v). (capitalize k, v)) suf)"
  using assms
proof (induction suf arbitrary: acc)
  case Nil
  then show ?case by simp
next
  case (Cons kv suf)
  obtain k v where kv: "kv = (k, v)" by (cases kv)
  from Cons.prems(1)[of k v] kv have own: "own_prop val k = v" and ne: "k \<noteq> []" by simp_all
  from Cons.prems(3) kv have fresh: "capitalize k \<notin> fst ` set acc" by auto
  have step: "formatKeys_loop val (map fst (kv # suf)) acc
      = formatKeys_loop val (map fst suf) (acc @ [(capitalize k, v)])"
    using formatKeys_loop_step[OF ne, of val "map fst suf" acc] own kv update_fresh[OF fresh] by simp
  have d: "distinct (map (\<lambda>kv. capitalize (fst kv)) suf)" using Cons.prems(2) by simp
  have "capitalize k \<notin> capitalize ` fst ` set suf" using Cons.prems(2) kv by (auto simp: image_iff)
  with Cons.prems(3) have disj: "capitalize ` fst ` set suf \<inter> fst ` set (acc @ [(capitalize k, v)]) = {}"
    by auto
  have "formatKeys_loop val (map fst suf) (acc @ [(capitalize k, v)])
      = Inr ((acc @ [(capitalize k, v)]) @ map (\<lambda>(k, v). (capitalize k, v)) suf)"
    by (rule Cons.IH[OF _ d disj]) (use Cons.prems(1) in auto)
  with step kv show ?case by simp
qed

lemma own_prop_distinct: "distinct (map fst kvs) \<Longrightarrow> (k, v) \<in> set kvs \<Longrightarrow> own_prop kvs k = v"
  by (simp add: own_prop_def)

text \<open>
  The client's \<open>formatKeysAPI\<close> does what C6 says: for a payload object without the empty
  key whose keys stay different when capitalized, the result is the payload with the first
  letter of every key in upper case, the rest of the keys, the values and the order
  unchanged.
\<close>

lemma formatKeysAPI_capitalizes:
  assumes "distinct (map fst kvs)" and "[] \<notin> fst ` set kvs" and "inj_on capitalize (fst ` set kvs)"
  shows "formatKeysAPI kvs = Inr (map (\<lambda>(k, v). (capitalize k, v)) kvs)"
proof -
  have own: "\<And>k v. (k, v) \<in> set kvs \<Longrightarrow> own_prop kvs k = v \<and> k \<noteq> []"
    using assms(1,2) by (auto simp: own_prop_distinct image_iff)
  have "distinct (map capitalize (map fst kvs))"
    using assms(1,3) unfolding distinct_map[of capitalize "map fst kvs"] by simp
  then have d: "distinct (map (\<lambda>kv. capitalize (fst kv)) kvs)" by (simp add: comp_def)
  from formatKeys_loop_fresh[OF own d, of "[]"] show ?thesis
    by (simp add: formatKeysAPI_def)
qed

lemma formatKeys_loop_invariant:
  assumes "formatKeys_loop val ks acc = Inr r"
    and "distinct (map fst acc)" and "\<And>k. k \<in> fst ` set acc \<Longrightarrow> capitalize k = k \<and> k \<noteq> []"
  shows "distinct (map fst r) \<and> (\<forall>k \<in> fst ` set r. capitalize k = k \<and> k \<noteq> [])"
  using assms
proof (induction ks arbitrary: acc)
  case Nil
  then show ?case by auto
next
  case (Cons k ks)
  show ?case
  proof (cases "k = []")
    case True
    with Cons.prems(1) show ?thesis by simp
  next
    case False
    let ?acc = "AList.update (capitalize k) (own_prop val k) acc"
    from Cons.prems(1) formatKeys_loop_step[OF False, of val ks acc]
    have run: "formatKeys_loop val ks ?acc = Inr r" by simp
    have d: "distinct (map fst ?acc)" using Cons.prems(2) by (rule distinct_update)
    have keys: "\<And>k'. k' \<in> fst ` set ?acc \<Longrightarrow> capitalize k' = k' \<and> k' \<noteq> []"
      using Cons.prems(3) False by (auto simp: dom_update capitalize_idem capitalize_Nil)
    show ?thesis by (rule Cons.IH[OF run d keys])
  qed
qed

text \<open>Applying the client's \<open>formatKeysAPI\<close> to its own result changes nothing.\<close>

lemma formatKeysAPI_idempotent:
  assumes "formatKeysAPI kvs = Inr r"
  shows "formatKeysAPI r = Inr r"
proof -
  from formatKeys_loop_invariant[of kvs "map fst kvs" "[]" r] assms
  have d: "distinct (map fst r)" and keys: "\<forall>k \<in> fst ` set r. capitalize k = k \<and> k \<noteq> []"
    by (simp_all add: formatKeysAPI_def)
  from keys have ne: "[] \<notin> fst ` set r" by blast
  from keys have inj: "inj_on capitalize (fst ` set r)" by (auto simp: inj_on_def)
  have "map (\<lambda>(k, v). (capitalize k, v)) r = r"
    using keys by (induction r) (auto simp: image_iff)
  with formatKeysAPI_capitalizes[OF d ne inj] show ?thesis by simp
qed

text \<open>
  On a payload with the empty key the loop throws: \<open>key[0]\<close> is \<open>undefined\<close>. The
  payloads the client builds have the keys \<open>file\<close>, \<open>stopOnEntry\<close> and \<open>line\<close>.
\<close>

lemma formatKeysAPI_empty_key: "formatKeysAPI (([], v) # kvs) = Inl TypeError"
  by (simp add: formatKeysAPI_def)

section \<open>Properties of the breakpoint requests\<close>

lemma formatKeysAPI_line: "formatKeysAPI [(''line'', JNum n)] = Inr [(''Line'', JNum n)]"
  by (simp add: formatKeysAPI_def toUpperCase_def own_prop_def)

lemma formatKeysAPI_file: "formatKeysAPI [(''file'', JStr t)] = Inr [(''File'', JStr t)]"
  by (simp add: formatKeysAPI_def toUpperCase_def own_prop_def)

lemma formatKeysAPI_stopOnEntry:
  "formatKeysAPI [(''stopOnEntry'', JBool b)] = Inr [(''StopOnEntry'', JBool b)]"
  by (simp add: formatKeysAPI_def toUpperCase_def own_prop_def)

lemma received_backend: "backend (received net req c) = snd (net req (backend c))"
  by (simp add: received_def sendEvent_def Let_def split: transport_outcome.splits)

lemma received_issued: "issued (received net req c) = issued c @ [req]"
  by (simp add: received_def sendEvent_def Let_def split: transport_outcome.splits)

lemma client_setBreakPoint_eq:
  "client_setBreakPoint net n c =
     (Resolved (value_of (fst (net (set_request n) (backend c)))), received net (set_request n) c)"
  by (simp add: client_setBreakPoint_def request_def handleError_def formatKeysAPI_line set_request_def
        value_of_def received_def Let_def split: prod.splits transport_outcome.splits)

lemma client_clearBreakpoints_eq:
  "client_clearBreakpoints net c = (Resolved JUndefined, received net clear_request c)"
  by (simp add: client_clearBreakpoints_def request_def handleError_def clear_request_def
        received_def Let_def split: prod.splits transport_outcome.splits)

lemma client_getBreakpoints_eq:
  "client_getBreakpoints net c =
     (Resolved (value_of (fst (net get_request (backend c)))), received net get_request c)"
  by (simp add: client_getBreakpoints_def request_def handleError_def get_request_def
        value_of_def received_def Let_def split: prod.splits transport_outcome.splits)

lemma trueBreakpoint_eq:
  "trueBreakpoint net s l c =
     (settle s (fst (net (set_request (convertClientLineToDebugger s l)) (backend c))),
      received net (set_request (convertClientLineToDebugger s l)) c)"
  by (simp add: trueBreakpoint_def client_setBreakPoint_eq settle_def split: sum.splits)

lemma trueBreakpoints_issued:
  "issued (snd (trueBreakpoints net s ls c)) =
     issued c @ map (\<lambda>l. set_request (convertClientLineToDebugger s l)) ls"
  by (induction ls arbitrary: c)
     (simp_all add: split_def Let_def trueBreakpoint_eq received_issued)

lemma trueBreakpoints_backend:
  "backend (snd (trueBreakpoints net s ls c)) =
     final_state net (map (\<lambda>l. set_request (convertClientLineToDebugger s l)) ls) (backend c)"
  by (induction ls arbitrary: c)
     (simp_all add: split_def Let_def trueBreakpoint_eq received_backend)

lemma trueBreakpoints_fst:
  "fst (trueBreakpoints net s ls c) =
     map (settle s) (outcomes net (map (\<lambda>l. set_request (convertClientLineToDebugger s l)) ls) (backend c))"
  by (induction ls arbitrary: c)
     (simp_all add: split_def Let_def trueBreakpoint_eq received_backend)

lemma backend_throw: "backend (throw e c) = backend c" and issued_throw: "issued (throw e c) = issued c"
  by (simp_all add: throw_def)

lemma setBreakPointsRequest_issued:
  "issued (snd (setBreakPointsRequest net s (Some ls) c)) =
     issued c @ clear_request # map (\<lambda>l. set_request (convertClientLineToDebugger s l)) ls"
  by (simp add: setBreakPointsRequest_def client_clearBreakpoints_eq split_def Let_def
        trueBreakpoints_issued received_issued issued_throw split: promise.splits)

lemma setBreakPointsRequest_backend:
  "backend (snd (setBreakPointsRequest net s (Some ls) c)) =
     final_state net (clear_request # map (\<lambda>l. set_request (convertClientLineToDebugger s l)) ls) (backend c)"
  by (simp add: setBreakPointsRequest_def client_clearBreakpoints_eq split_def Let_def
        trueBreakpoints_backend received_backend backend_throw split: promise.splits)

lemma setBreakPointsRequest_fst:
  "fst (setBreakPointsRequest net s (Some ls) c) =
     (case Promise_all (map (settle s)
             (outcomes net (map (\<lambda>l. set_request (convertClientLineToDebugger s l)) ls)
                (snd (net clear_request (backend c))))) of
        Resolved breakpoints \<Rightarrow> Success (JObj [(''breakpoints'', JArr breakpoints)])
      | Rejected e \<Rightarrow> NoResponse
      | Pending \<Rightarrow> NoResponse)"
  by (simp add: setBreakPointsRequest_def client_clearBreakpoints_eq split_def Let_def
        trueBreakpoints_fst received_backend split: promise.splits)

lemma spec_backend_set:
  "spec_backend pl (set_request n) b =
     (Reply (RuntimeBreakpoint (pl n) n n), b\<lparr>registered := List.insert n (registered b)\<rparr>)"
  by (simp add: spec_backend_def set_request_def)

lemma spec_backend_clear:
  "spec_backend pl clear_request b = (Reply (JObj []), b\<lparr>registered := []\<rparr>)"
  by (simp add: spec_backend_def clear_request_def)

lemma final_state_sets:
  "set (registered (final_state (spec_backend pl) (map set_request ns) b)) = set ns \<union> set (registered b)"
  by (induction ns arbitrary: b) (auto simp: spec_backend_set)

lemma final_state_clear_sets:
  "set (registered (final_state (spec_backend pl) (clear_request # map set_request ns) b)) = set ns"
  by (simp add: spec_backend_clear final_state_sets)

lemma outcomes_sets:
  "outcomes (spec_backend pl) (map set_request ns) b = map (\<lambda>n. Reply (RuntimeBreakpoint (pl n) n n)) ns"
  by (induction ns arbitrary: b) (simp_all add: spec_backend_set)

lemma map_set_request:
  "map (\<lambda>l. set_request (convertClientLineToDebugger s l)) ls
     = map set_request (map (convertClientLineToDebugger s) ls)"
  by simp

lemma convert_round_trip:
  "convertDebuggerLineToClient s (convertClientLineToDebugger s l) = l"
  "convertClientLineToDebugger s (convertDebuggerLineToClient s l) = l"
  by (simp_all add: convertDebuggerLineToClient_def convertClientLineToDebugger_def)

text \<open>
  C1. Two \<open>setBreakpoints\<close> operations run in sequence, with the requested lines \<open>L1\<close>
  and then \<open>L2\<close>, from any state of the client and of the backend and with any numbering
  of the client. At the end the backend has registered exactly the lines of \<open>L2\<close>, in its
  own numbering, which are the lines \<open>L2\<close> of the client. With any network, one operation
  sends the clear request first and then one set request per requested line, in the order
  of the lines, each carrying the line translated to the debugger.
\<close>

theorem setBreakPoints_full_replace:
  "(let c1 = snd (setBreakPointsRequest (spec_backend pl) s (Some L1) c);
        c2 = snd (setBreakPointsRequest (spec_backend pl) s (Some L2) c1)
    in set (registered (backend c2)) = convertClientLineToDebugger s ` set L2
       \<and> convertDebuggerLineToClient s ` set (registered (backend c2)) = set L2)
   \<and> issued (snd (setBreakPointsRequest net s (Some L) c'))
       = issued c' @ clear_request # map (\<lambda>l. set_request (convertClientLineToDebugger s l)) L"
proof -
  define c1 where "c1 = snd (setBreakPointsRequest (spec_backend pl) s (Some L1) c)"
  define c2 where "c2 = snd (setBreakPointsRequest (spec_backend pl) s (Some L2) c1)"
  have reg: "set (registered (backend c2)) = convertClientLineToDebugger s ` set L2"
    unfolding c2_def setBreakPointsRequest_backend map_set_request final_state_clear_sets
    by simp
  have "convertDebuggerLineToClient s ` set (registered (backend c2)) = set L2"
    unfolding reg by (simp add: image_image convert_round_trip)
  with reg show ?thesis
    by (simp add: Let_def c1_def c2_def setBreakPointsRequest_issued)
qed

text \<open>
  The set requests of one operation are sent without waiting for one another, so they may
  reach the backend in another order; the registered lines are the same.
\<close>

lemma spec_backend_arrival_order:
  assumes "mset ns = mset (map (convertClientLineToDebugger s) L)"
  shows "set (registered (final_state (spec_backend pl) (clear_request # map set_request ns) b))
           = convertClientLineToDebugger s ` set L"
proof -
  from assms have "set ns = set (map (convertClientLineToDebugger s) L)" by (rule mset_eq_setD)
  then show ?thesis unfolding final_state_clear_sets by simp
qed

lemma Promise_all_Resolved: "Promise_all (map Resolved xs) = Resolved xs"
proof -
  have "rejection (map Resolved xs) = None" by (induction xs) simp_all
  moreover have "resolutions (map Resolved xs) = Some xs" by (induction xs) simp_all
  ultimately show ?thesis by (simp add: Promise_all_def)
qed

lemma settle_RuntimeBreakpoint:
  "settle s (Reply (RuntimeBreakpoint v n i)) =
     Resolved (JObj [(''verified'', JBool v), (''line'', JNum (convertDebuggerLineToClient s n)), (''id'', JNum i)])"
  by (simp add: settle_def value_of_def make_breakpoint_def RuntimeBreakpoint_def translated_def)

lemma outcomes_length: "length (outcomes net rs b) = length rs"
  by (induction rs arbitrary: b) simp_all

text \<open>
  C8. One \<open>setBreakpoints\<close> operation for the ordered lines \<open>ls\<close> sends, after the clear
  request, one set request per line in the order of the lines. When the backend answers the
  set requests with replies of the shape \<open>{verified, line, id}\<close>, the response holds one
  breakpoint per requested line, in the order of the lines: the i-th breakpoint has the
  \<open>verified\<close> and \<open>id\<close> of the reply to the i-th line's request and that reply's line,
  translated to the client.
\<close>

theorem setBreakPointsRequest_in_order:
  assumes "outcomes net (map (\<lambda>l. set_request (convertClientLineToDebugger s l)) ls)
             (snd (net clear_request (backend c)))
           = map (\<lambda>(v, n, i). Reply (RuntimeBreakpoint v n i)) replies"
  shows "issued (snd (setBreakPointsRequest net s (Some ls) c))
           = issued c @ clear_request # map (\<lambda>l. set_request (convertClientLineToDebugger s l)) ls
       \<and> length replies = length ls
       \<and> fst (setBreakPointsRequest net s (Some ls) c)
           = Success (JObj [(''breakpoints'',
               JArr (map (\<lambda>(v, n, i). JObj [(''verified'', JBool v),
                                               (''line'', JNum (convertDebuggerLineToClient s n)),
                                               (''id'', JNum i)]) replies))])"
proof -
  have len: "length replies = length ls"
    using arg_cong[OF assms, of length] by (simp add: outcomes_length)
  have "map (settle s) (map (\<lambda>(v, n, i). Reply (RuntimeBreakpoint v n i)) replies)
      = map Resolved (map (\<lambda>(v, n, i). JObj [(''verified'', JBool v),
                                               (''line'', JNum (convertDebuggerLineToClient s n)),
                                               (''id'', JNum i)]) replies)"
    by (simp add: split_def settle_RuntimeBreakpoint)
  then have "fst (setBreakPointsRequest net s (Some ls) c)
           = Success (JObj [(''breakpoints'',
               JArr (map (\<lambda>(v, n, i). JObj [(''verified'', JBool v),
                                               (''line'', JNum (convertDebuggerLineToClient s n)),
                                               (''id'', JNum i)]) replies))])"
    unfolding setBreakPointsRequest_fst assms by (simp only: Promise_all_Resolved promise.case)
  with len show ?thesis by (simp add: setBreakPointsRequest_issued)
qed

theorem setBreakPointsRequest_in_order_witness:
  "outcomes (spec_backend (\<lambda>n. n < 5)) (map (\<lambda>l. set_request (convertClientLineToDebugger (new_DebugSession True True) l)) [4, 7])
       (snd (spec_backend (\<lambda>n. n < 5) clear_request (backend (new_RuntimeClient \<lparr>registered = [1]\<rparr>))))
     = map (\<lambda>(v, n, i). Reply (RuntimeBreakpoint v n i)) [(True, 3, 3), (False, 6, 6)]
   \<and> fst (setBreakPointsRequest (spec_backend (\<lambda>n. n < 5)) (new_DebugSession True True) (Some [4, 7])
            (new_RuntimeClient \<lparr>registered = [1]\<rparr>))
     = Success (JObj [(''breakpoints'',
          JArr [JObj [(''verified'', JBool True), (''line'', JNum 4), (''id'', JNum 3)],
                JObj [(''verified'', JBool False), (''line'', JNum 7), (''id'', JNum 6)]])])"
proof -
  have h: "outcomes (spec_backend (\<lambda>n. n < 5)) (map (\<lambda>l. set_request (convertClientLineToDebugger (new_DebugSession True True) l)) [4, 7])
       (snd (spec_backend (\<lambda>n. n < 5) clear_request (backend (new_RuntimeClient \<lparr>registered = [1]\<rparr>))))
     = map (\<lambda>(v, n, i). Reply (RuntimeBreakpoint v n i)) [(True, 3, 3), (False, 6, 6)]"
    by (simp add: spec_backend_set convertClientLineToDebugger_def new_DebugSession_def base_offset_def)
  from setBreakPointsRequest_in_order[OF h] h show ?thesis
    by (simp add: convertDebuggerLineToClient_def new_DebugSession_def base_offset_def)
qed

section \<open>Properties of the launch request\<close>

lemma client_start_fst:
  assumes "readFile program = Some text"
  shows "fst (client_start readFile net program stopOnEntry c) =
     (let d0 = value_of (fst (net (load_request text) (backend c)));
          d1 = value_of (fst (net (start_request stopOnEntry) (snd (net (load_request text) (backend c)))))
      in Resolved (JObj [(''error'', js_or (opt_chain d0 ''error'') (opt_chain d1 ''error'')),
                         (''event'', js_or (opt_chain d1 ''event'') (JStr []))]))"
  using assms
  by (simp add: client_start_def request_def handleError_def formatKeysAPI_file
        formatKeysAPI_stopOnEntry load_request_def start_request_def value_of_def Let_def
        split: prod.splits transport_outcome.splits)

text \<open>Without variables, \<open>formatPII\<close> gives the format back or throws.\<close>

lemma formatPII_unchanged: "formatPII f = Inr r \<Longrightarrow> r = f"
proof (induction f arbitrary: r rule: formatPII.induct)
  case 1
  then show ?case by simp
next
  case (2 c cs)
  let ?name = "takeWhile (\<lambda>x. x \<noteq> CHR ''}'') cs"
  let ?rest = "dropWhile (\<lambda>x. x \<noteq> CHR ''}'') cs"
  show ?case
  proof (cases "c = CHR ''{'' \<and> ?name \<noteq> [] \<and> ?rest \<noteq> []")
    case True
    with "2.prems" have nu: "hd ?name \<noteq> CHR ''_''"
      by (auto simp add: Let_def split: if_splits)
    with True "2.prems" obtain r' where r': "formatPII (tl ?rest) = Inr r'"
      and r: "r = c # ?name @ CHR ''}'' # r'"
      by (cases "formatPII (tl ?rest)") (auto simp add: Let_def)
    from "2.IH"(1)[OF refl refl True nu r'] have "r' = tl ?rest" .
    moreover from True have "hd ?rest = CHR ''}''"
      using hd_dropWhile[of "\<lambda>x. x \<noteq> CHR ''}''" cs] by simp
    ultimately have "?name @ CHR ''}'' # r' = ?name @ ?rest"
      using True by (metis list.collapse)
    with r show ?thesis by simp
  next
    case False
    with "2.prems" obtain r' where r': "formatPII cs = Inr r'" and r: "r = c # r'"
      by (cases "formatPII cs") (auto simp add: Let_def)
    from "2.IH"(2)[OF refl refl False r'] r show ?thesis by simp
  qed
qed

lemma formatPII_no_brace: "CHR ''{'' \<notin> set f \<Longrightarrow> formatPII f = Inr f"
  by (induction f) (auto simp add: Let_def)

lemma launchRequest_answer:
  assumes "readFile program = Some text"
  shows "fst (launchRequest readFile net program stopOnEntry c) =
     (let d0 = value_of (fst (net (load_request text) (backend c)));
          d1 = value_of (fst (net (start_request stopOnEntry) (snd (net (load_request text) (backend c)))));
          error = js_or (opt_chain d0 ''error'') (opt_chain d1 ''error'')
      in if truthy error
         then (case formatPII (''Runtime: '' @ js_to_string error) of
                 Inl e \<Rightarrow> NoResponse
               | Inr message \<Rightarrow> ErrorResponse 1001 message True)
         else Success JUndefined)"
proof -
  obtain p c1 where st: "client_start readFile net program stopOnEntry c = (p, c1)"
    by (cases "client_start readFile net program stopOnEntry c")
  with client_start_fst[of readFile program "text" net stopOnEntry c] assms
  have p: "p = (let d0 = value_of (fst (net (load_request text) (backend c)));
          d1 = value_of (fst (net (start_request stopOnEntry) (snd (net (load_request text) (backend c)))))
      in Resolved (JObj [(''error'', js_or (opt_chain d0 ''error'') (opt_chain d1 ''error'')),
                         (''event'', js_or (opt_chain d1 ''event'') (JStr []))]))"
    by simp
  show ?thesis
    unfolding launchRequest_def st p
    by (simp add: Let_def sendErrorResponse_def split: sum.splits)
qed

text \<open>
  C9 at the failing input. The program text is read, and the backend answers the load
  request with the error text \<open>bad {_x}\<close>. \<open>launchRequest\<close> makes
  \<open>Runtime: bad {_x}\<close> the format of the error response and passes no variables:
  formatting it throws a TypeError that nothing catches, and the request is left without any
  response. For the error text \<open>syntax error in line 3\<close> the same call sends the error
  response with the id 1001, the message \<open>Runtime: syntax error in line 3\<close> and the
  show-to-user flag.
\<close>

theorem launchRequest_throws_on_placeholder:
  "fst (launchRequest one_file placeholder_error ''prog.misc'' True (new_RuntimeClient ()))
     = NoResponse
   \<and> uncaught (snd (launchRequest one_file placeholder_error ''prog.misc'' True (new_RuntimeClient ())))
     = [TypeError]
   \<and> fst (launchRequest one_file failing_load ''prog.misc'' True (new_RuntimeClient ()))
     = ErrorResponse 1001 ''Runtime: syntax error in line 3'' True"
  by code_simp
section \<open>Properties of the coordinate translation\<close>

text \<open>The constructor configures the debugger side as zero-based.\<close>

lemma new_DebugSession_zero_based:
  "\<not> debuggerLinesStartAt1 (new_DebugSession clientLines1 clientColumns1)"
  "\<not> debuggerColumnsStartAt1 (new_DebugSession clientLines1 clientColumns1)"
  by (simp_all add: new_DebugSession_def)

text \<open>Translating a column number there and back gives the number back, as for lines.\<close>

lemma convert_column_round_trip:
  "convertDebuggerColumnToClient s (convertClientColumnToDebugger s l) = l"
  "convertClientColumnToDebugger s (convertDebuggerColumnToClient s l) = l"
  by (simp_all add: convertDebuggerColumnToClient_def convertClientColumnToDebugger_def)

text \<open>
  The response of \<open>breakpointLocationsRequest\<close> is the spread reply of the backend, whatever
  the session has configured: no line of it is translated.
\<close>

lemma breakpointLocationsRequest_forwards_reply:
  "fst (net get_request (backend c)) = Reply v
   \<Longrightarrow> fst (breakpointLocationsRequest net s c) = Success (JObj (spread v))"
  by (simp add: breakpointLocationsRequest_def client_getBreakpoints_eq value_of_def)

text \<open>
  C7 at the failing input. The client counts lines from 1 and the backend holds one
  breakpoint in its line 4, which is line 5 of the client. \<open>setBreakPointsRequest\<close> for the
  client's line 5 sends line 4 to the backend and answers with line 5: the line is translated
  once in each direction. \<open>breakpointLocationsRequest\<close> spreads the reply of the backend
  into the body of the response as it is, and the line reaches the same client as 4.
\<close>

theorem breakpointLocationsRequest_untranslated:
  "issued (snd (setBreakPointsRequest breakpoint_in_line_4 (new_DebugSession True True) (Some [5])
                  (new_RuntimeClient ())))
     = [clear_request, set_request 4]
   \<and> fst (setBreakPointsRequest breakpoint_in_line_4 (new_DebugSession True True) (Some [5])
            (new_RuntimeClient ()))
     = Success (JObj [(''breakpoints'',
         JArr [JObj [(''verified'', JBool True), (''line'', JNum 5), (''id'', JNum 4)]])])
   \<and> fst (breakpointLocationsRequest breakpoint_in_line_4 (new_DebugSession True True)
            (new_RuntimeClient ()))
     = Success (JObj [(''0'', JObj [(''line'', JNum 4)])])
   \<and> convertDebuggerLineToClient (new_DebugSession True True) 4 = 5"
  by code_simp
section \<open>Where the HTTP clients leave the contract\<close>

lemma client_step_eq:
  "client_step net c =
     (let c1 = c\<lparr>backend := snd (net step_request (backend c)), issued := issued c @ [step_request]\<rparr>
      in case fst (net step_request (backend c)) of
           Reply v \<Rightarrow>
             (case get_prop v ''event'' of
                Inl e \<Rightarrow> (Pending, throw e c1)
              | Inr ev \<Rightarrow> (Resolved v, if truthy ev then sendEventVal (opt_chain v ''event'') c1 else c1))
         | _ \<Rightarrow> (Pending, sendEvent ''end'' [] (throw TypeError c1)))"
  by (auto simp: client_step_def request_def handleError_def step_request_def Let_def
        split: prod.splits transport_outcome.splits sum.splits)

lemma client_step_failure:
  assumes "failure (fst (net step_request (backend c)))"
  shows "fst (client_step net c) = Pending"
    and "uncaught (snd (client_step net c)) = uncaught c @ [TypeError]"
    and "emitted (snd (client_step net c)) = emitted c @ [Emit (JStr ''end'') []]"
  using assms
  by (cases "fst (net step_request (backend c))";
      simp add: client_step_eq failure_def sendEvent_def throw_def Let_def)+

lemma get_prop_event_bool: "get_prop (JBool b) k = Inr JUndefined"
  by simp

lemma client_step_boolean_silent:
  "\<not> (\<exists>b. fst (client_step net c) = Resolved (JBool b) \<and> emitted (snd (client_step net c)) \<noteq> emitted c)"
proof
  assume "\<exists>b. fst (client_step net c) = Resolved (JBool b) \<and> emitted (snd (client_step net c)) \<noteq> emitted c"
  then obtain b where res: "fst (client_step net c) = Resolved (JBool b)"
    and em: "emitted (snd (client_step net c)) \<noteq> emitted c" by blast
  show False
  proof (cases "fst (net step_request (backend c))")
    case (Reply v)
    show ?thesis
    proof (cases "get_prop v ''event''")
      case (Inl e)
      with Reply res show ?thesis by (simp add: client_step_eq Let_def)
    next
      case (Inr ev)
      with Reply res have v: "v = JBool b" by (simp add: client_step_eq Let_def)
      with Inr have "ev = JUndefined" by simp
      with Reply Inr em show ?thesis by (simp add: client_step_eq Let_def)
    qed
  next
    case ConnectionRefused
    with res show ?thesis by (simp add: client_step_eq Let_def)
  next
    case RequestException
    with res show ?thesis by (simp add: client_step_eq Let_def)
  next
    case MalformedReply
    with res show ?thesis by (simp add: client_step_eq Let_def)
  qed
qed


text \<open>
  C2 at the failing input. \<open>step\<close> is called while the backend cannot be reached (or the
  request throws, or the reply does not parse). \<open>handleError\<close> hands \<open>null\<close> to the
  subscriber, which reads \<open>data.event\<close> and throws before it reaches \<open>resolve\<close>: the
  promise of \<open>step\<close> stays pending for ever, the TypeError is reported to the host, and
  \<open>nextRequest\<close> never answers. Only the \<open>end\<close> notification is sent. The subscriber of
  \<open>getStackFrames\<close> reads \<open>data.frames\<close> and fails in the same way, and the request
  function of the first HTTP adapter never reaches the subscriber of \<open>start\<close>.
\<close>

theorem client_step_unresolved_on_transport_failure:
  "fst (client_step (failing ConnectionRefused) c) = Pending
   \<and> fst (client_step (failing RequestException) c) = Pending
   \<and> fst (client_step (failing MalformedReply) c) = Pending
   \<and> uncaught (snd (client_step (failing ConnectionRefused) c)) = uncaught c @ [TypeError]
   \<and> emitted (snd (client_step (failing ConnectionRefused) c)) = emitted c @ [Emit (JStr ''end'') []]
   \<and> fst (nextRequest (failing ConnectionRefused) c) = NoResponse
   \<and> fst (client_getStackFrames (failing ConnectionRefused) c) = Pending
   \<and> fst (adapter_start (Suc fuel) one_file (failing ConnectionRefused) ''prog.misc'' stopAtEntry c) = Pending"
proof -
  have step: "failure out \<Longrightarrow> fst (client_step (failing out) c) = Pending" for out
    by (simp add: client_step_def request_def handleError_def failing_def failure_def Let_def
          split: transport_outcome.splits)
  have eff: "uncaught (snd (client_step (failing ConnectionRefused) c)) = uncaught c @ [TypeError]"
    "emitted (snd (client_step (failing ConnectionRefused) c)) = emitted c @ [Emit (JStr ''end'') []]"
    by (simp_all add: client_step_def request_def handleError_def failing_def sendEvent_def throw_def Let_def)
  have frames: "fst (client_getStackFrames (failing ConnectionRefused) c) = Pending"
    by (simp add: client_getStackFrames_def request_def handleError_def failing_def Let_def)
  have start: "fst (adapter_start (Suc fuel) one_file (failing ConnectionRefused) ''prog.misc'' stopAtEntry c) = Pending"
    by (simp add: adapter_start_def adapter_request_def one_file_def failing_def Let_def
          JSON_stringify_def adapter_formatKeysAPI_def)
  have nxt: "fst (nextRequest (failing ConnectionRefused) c) = NoResponse"
    using step[of ConnectionRefused]
    by (cases "client_step (failing ConnectionRefused) c") (simp add: nextRequest_def failure_def)
  from step[of ConnectionRefused] step[of RequestException] step[of MalformedReply] eff frames start nxt
  show ?thesis by (simp add: failure_def)
qed

text \<open>
  The other commands of the client do what C2 says: whatever the failure, the promises of
  \<open>setBreakPoint\<close>, \<open>getBreakpoints\<close> and \<open>getVariables\<close> resolve with \<open>null\<close>, the
  promises of \<open>clearBreakpoints\<close> and \<open>start\<close> resolve, \<open>end\<close> is sent and nothing is
  thrown.
\<close>

lemma received_failure:
  assumes "failure (fst (net req (backend c)))"
  shows "emitted (received net req c) = emitted c @ [Emit (JStr ''end'') []]"
    and "uncaught (received net req c) = uncaught c"
    and "value_of (fst (net req (backend c))) = JNull"
  using assms
  by (cases "fst (net req (backend c))";
      simp add: received_def sendEvent_def failure_def value_of_def Let_def)+

lemma client_getVariables_eq:
  "client_getVariables net c =
     (Resolved (value_of (fst (net variables_request (backend c)))), received net variables_request c)"
  by (simp add: client_getVariables_def request_def handleError_def variables_request_def
        value_of_def received_def Let_def split: prod.splits transport_outcome.splits)

lemma client_commands_resolve_on_transport_failure:
  "failure (fst (net (set_request n) (backend c))) \<Longrightarrow>
     fst (client_setBreakPoint net n c) = Resolved JNull
     \<and> emitted (snd (client_setBreakPoint net n c)) = emitted c @ [Emit (JStr ''end'') []]
     \<and> uncaught (snd (client_setBreakPoint net n c)) = uncaught c"
  "failure (fst (net get_request (backend c))) \<Longrightarrow>
     fst (client_getBreakpoints net c) = Resolved JNull
     \<and> emitted (snd (client_getBreakpoints net c)) = emitted c @ [Emit (JStr ''end'') []]
     \<and> uncaught (snd (client_getBreakpoints net c)) = uncaught c"
  "failure (fst (net variables_request (backend c))) \<Longrightarrow>
     fst (client_getVariables net c) = Resolved JNull
     \<and> emitted (snd (client_getVariables net c)) = emitted c @ [Emit (JStr ''end'') []]
     \<and> uncaught (snd (client_getVariables net c)) = uncaught c"
  "failure (fst (net clear_request (backend c))) \<Longrightarrow>
     fst (client_clearBreakpoints net c) = Resolved JUndefined
     \<and> emitted (snd (client_clearBreakpoints net c)) = emitted c @ [Emit (JStr ''end'') []]
     \<and> uncaught (snd (client_clearBreakpoints net c)) = uncaught c"
  by (simp_all add: client_setBreakPoint_eq client_getBreakpoints_eq client_getVariables_eq
        client_clearBreakpoints_eq received_failure)

lemma client_start_resolves_on_transport_failure:
  assumes "readFile path = Some text" and "failure out"
  shows "fst (client_start readFile (failing out) path stopOnEntry c)
           = Resolved (JObj [(''error'', JUndefined), (''event'', JStr [])])"
    and "emitted (snd (client_start readFile (failing out) path stopOnEntry c))
           = emitted c @ [Emit (JStr ''end'') [], Emit (JStr ''end'') []]"
    and "uncaught (snd (client_start readFile (failing out) path stopOnEntry c)) = uncaught c"
  using assms
  by (cases out;
      simp add: client_start_def request_def handleError_def formatKeysAPI_file
        formatKeysAPI_stopOnEntry failing_def failure_def js_or_def sendEvent_def Let_def)+

text \<open>
  C3 at the failing input. The executor of the promise returned by \<open>continue\<close> of the
  client is empty: with every network and in every state the promise stays pending, no
  request is sent and \<open>continueRequest\<close> never answers. On a backend whose program has ended,
  one call of \<open>step\<close> resolves and sends \<open>end\<close>, so a loop over \<open>step\<close> would resolve after
  one call.
\<close>

theorem client_continue_never_resolves:
  "client_continue net c = (Pending, c)
   \<and> fst (continueRequest net c) = NoResponse
   \<and> issued (snd (continueRequest net c)) = issued c
   \<and> fst (client_step program_ends (new_RuntimeClient ())) = Resolved (JObj [(''event'', JStr ''end'')])
   \<and> emitted (snd (client_step program_ends (new_RuntimeClient ()))) = [Emit (JStr ''end'') []]"
  by (simp add: client_continue_def continueRequest_def client_step_def request_def program_ends_def
        new_RuntimeClient_def sendEventVal_def Let_def)

text \<open>
  C4 at the failing input. The backend answers the step request with \<open>{event: stopOnStep}\<close>.
  \<open>step\<close> of the client sends the notification and resolves with the reply itself: the
  result is an object, not the boolean flag, and it is truthy although the program has not
  ended. With every network and in every state, a call of \<open>step\<close> that resolves with a
  boolean has sent no notification.
\<close>

theorem client_step_resolves_with_reply:
  "fst (client_step stepping c) = Resolved (JObj [(''event'', JStr ''stopOnStep'')])
   \<and> emitted (snd (client_step stepping c)) = emitted c @ [Emit (JStr ''stopOnStep'') []]
   \<and> truthy (JObj [(''event'', JStr ''stopOnStep'')])
   \<and> \<not> (\<exists>b. fst (client_step net c') = Resolved (JBool b)
             \<and> emitted (snd (client_step net c')) \<noteq> emitted c')"
proof -
  have "fst (client_step stepping c) = Resolved (JObj [(''event'', JStr ''stopOnStep'')])"
    and "emitted (snd (client_step stepping c)) = emitted c @ [Emit (JStr ''stopOnStep'') []]"
    by (simp_all add: client_step_eq stepping_def sendEventVal_def Let_def)
  with client_step_boolean_silent[of net c'] show ?thesis by simp
qed

text \<open>
  C6 at the failing input. The first HTTP adapter passes \<open>formatKeysAPI\<close> to
  \<open>JSON.stringify\<close> as the replacer. The replacer is first called with the empty key and
  the whole payload and returns the empty object, so every payload object is transmitted as
  the empty object: the start request carries no \<open>StopAtEntry\<close>.
\<close>

theorem adapter_request_transmits_empty_object:
  "JSON_stringify (Suc fuel) (JObj payload) adapter_formatKeysAPI = Some (JObj [])
   \<and> issued (snd (adapter_start (Suc fuel) one_file net ''prog.misc'' stopAtEntry c))
       = issued c @ [\<lparr>req_method = ''POST'', req_url = ''http://localhost:5000/Debug/Start'',
                       req_body = Some (JObj [])\<rparr>]
   \<and> formatKeysAPI [(''stopAtEntry'', JBool stopAtEntry)] = Inr [(''StopAtEntry'', JBool stopAtEntry)]"
proof -
  have str: "JSON_stringify (Suc fuel) (JObj payload) adapter_formatKeysAPI = Some (JObj [])" for payload
    by (simp add: JSON_stringify_def adapter_formatKeysAPI_def)
  have "issued (snd (adapter_start (Suc fuel) one_file net ''prog.misc'' stopAtEntry c))
       = issued c @ [\<lparr>req_method = ''POST'', req_url = ''http://localhost:5000/Debug/Start'',
                       req_body = Some (JObj [])\<rparr>]"
    by (simp add: adapter_start_def adapter_request_def one_file_def str sendEvent_def sendEventVal_def
          Let_def split: prod.splits transport_outcome.splits)
  moreover have "formatKeysAPI [(''stopAtEntry'', JBool stopAtEntry)] = Inr [(''StopAtEntry'', JBool stopAtEntry)]"
    by (simp add: formatKeysAPI_def toUpperCase_def own_prop_def)
  ultimately show ?thesis using str by simp
qed

section \<open>Breakpoints in the standalone mock runtime\<close>

lemma mock_trueBreakpoint_eq:
  "mock_trueBreakpoint s l ra =
     (Resolved (JObj [(''verified'', JBool False), (''line'', JNum l),
                      (''id'', JNum (convertClientLineToDebugger s l))]), ra)"
  by (simp add: mock_trueBreakpoint_def mock_setBreakPoint_def make_breakpoint_def translated_def
        convertDebuggerLineToClient_def convertClientLineToDebugger_def)

lemma mock_trueBreakpoints_eq:
  "mock_trueBreakpoints s ls ra =
     (map (\<lambda>l. Resolved (JObj [(''verified'', JBool False), (''line'', JNum l),
                                (''id'', JNum (convertClientLineToDebugger s l))])) ls, ra)"
  by (induction ls) (simp_all add: mock_trueBreakpoint_eq)

lemma mock_setBreakPointsRequest_eq:
  "mock_setBreakPointsRequest s (Some ls) ra =
     (Success (JObj [(''breakpoints'',
        JArr (map (\<lambda>l. JObj [(''verified'', JBool False), (''line'', JNum l),
                              (''id'', JNum (convertClientLineToDebugger s l))]) ls))]), ra)"
proof -
  have "map (\<lambda>l. Resolved (JObj [(''verified'', JBool False), (''line'', JNum l),
                                (''id'', JNum (convertClientLineToDebugger s l))])) ls
      = map Resolved (map (\<lambda>l. JObj [(''verified'', JBool False), (''line'', JNum l),
                              (''id'', JNum (convertClientLineToDebugger s l))]) ls)"
    by simp
  then show ?thesis
    by (simp only: mock_setBreakPointsRequest_def mock_clearBreakpoints_def mock_trueBreakpoints_eq
          Promise_all_Resolved Let_def option.case prod.case promise.case)
qed

text \<open>
  C10. In the standalone mock runtime, \<open>setBreakPoint\<close> resolves, for every requested line
  and in every state, with \<open>verified = false\<close> and with \<open>line\<close> and \<open>id\<close> equal to the
  requested line, and it changes nothing. So every breakpoint in a \<open>setBreakpoints\<close>
  response of the mock session is unverified. Whatever sequence of public methods a client
  calls on a fresh runtime, with any file reader, no \<open>breakpointValidated\<close> notification is
  ever emitted: the runtime only emits \<open>stopOnEntry\<close>, \<open>output\<close>, \<open>stopOnStep\<close> and
  \<open>end\<close>.
\<close>

theorem mock_setBreakPoint_never_verified:
  "mock_setBreakPoint line ra =
     (Resolved (JObj [(''verified'', JBool False), (''line'', JNum line), (''id'', JNum line)]), ra)
   \<and> mock_setBreakPointsRequest s (Some ls) ra =
     (Success (JObj [(''breakpoints'',
        JArr (map (\<lambda>l. JObj [(''verified'', JBool False), (''line'', JNum l),
                              (''id'', JNum (convertClientLineToDebugger s l))]) ls))]), ra)
   \<and> JStr ''breakpointValidated'' \<notin> set (event_names (run_calls readFile calls new_RuntimeAdapter))"
proof -
  have "set (event_names new_RuntimeAdapter) \<subseteq> mock_vocabulary"
    by (simp add: event_names_def new_RuntimeAdapter_def)
  from vocab_calls[OF this, of readFile calls]
  have "JStr ''breakpointValidated'' \<notin> set (event_names (run_calls readFile calls new_RuntimeAdapter))"
    by (auto simp: mock_vocabulary_def)
  then show ?thesis by (simp add: mock_setBreakPoint_def mock_setBreakPointsRequest_eq)
qed

end
